theory Spec2Isabelle
  imports Complex_Main "HOL-Library.Word" "HOL-Library.Sublist"
begin

unbundle bit_operations_syntax

section \<open>Data model\<close>

text \<open>
  JavaScript strings are modelled as \<open>string\<close> (lists of 8-bit characters, i.e. the
  Latin-1 range of UTF-16 code units). JavaScript numbers are IEEE doubles. What
  \<open>parseInt\<close> returns is a \<open>number\<close> below: \<open>NaN\<close>, an integer that a double represents
  exactly, or an infinity (\<open>-0\<close> is not told apart from \<open>0\<close>). The bitwise operators work
  on \<open>32 word\<close>, the ToInt32 of their operands. Numbers that the program passes around as
  small integers (bounds, defaults, sizes) are \<open>int\<close>, and fractional arithmetic is
  idealised to \<open>real\<close>, without rounding error.
\<close>

datatype number = NaN | Finite int | PosInfinity | NegInfinity

record ValidationResult =
  isValid :: bool
  error :: "string option"
  warning :: "string option"

record ColorValidationResult = ValidationResult +
  contrastRatio :: "real option"
  scannable :: "bool option"

record NumericValidationResult = ValidationResult +
  parsedValue :: int

section \<open>String primitives of the host language\<close>

text \<open>\<open>String.prototype.startsWith\<close>.\<close>

fun startsWith :: "string \<Rightarrow> string \<Rightarrow> bool" where
  "startsWith s [] = True"
| "startsWith [] (p # ps) = False"
| "startsWith (c # cs) (p # ps) = (c = p \<and> startsWith cs ps)"

text \<open>
  The white space and line terminator code units that \<open>trim\<close> and \<open>parseInt\<close> strip,
  restricted to the 8-bit range: TAB, LF, VT, FF, CR, SP and NBSP.
\<close>

definition isWhiteSpace :: "char \<Rightarrow> bool" where
  "isWhiteSpace c = (of_char c \<in> {9, 10, 11, 12, 13, 32, 160 :: nat})"

definition trimStart :: "string \<Rightarrow> string" where
  "trimStart s = dropWhile isWhiteSpace s"

definition trim :: "string \<Rightarrow> string" where
  "trim s = rev (dropWhile isWhiteSpace (rev (dropWhile isWhiteSpace s)))"

text \<open>Value of a character as a digit in radixes up to 36, as \<open>parseInt\<close> reads it.\<close>

definition digitVal :: "char \<Rightarrow> nat option" where
  "digitVal c =
     (let n = (of_char c :: nat) in
      if 48 \<le> n \<and> n \<le> 57 then Some (n - 48)
      else if 97 \<le> n \<and> n \<le> 122 then Some (n - 87)
      else if 65 \<le> n \<and> n \<le> 90 then Some (n - 55)
      else None)"

definition isRadixDigit :: "nat \<Rightarrow> char \<Rightarrow> bool" where
  "isRadixDigit R c = (case digitVal c of None \<Rightarrow> False | Some d \<Rightarrow> d < R)"

text \<open>The mathematical value of a digit string, most significant digit first.\<close>

fun digitsValue :: "nat \<Rightarrow> nat \<Rightarrow> string \<Rightarrow> nat" where
  "digitsValue R acc [] = acc"
| "digitsValue R acc (c # cs) = digitsValue R (acc * R + the (digitVal c)) cs"

text \<open>The number of binary digits of a natural number.\<close>

function bitLength :: "nat \<Rightarrow> nat" where
  "bitLength n = (if n = 0 then 0 else Suc (bitLength (n div 2)))"
  by pat_completeness auto
termination
  by (relation "measure id") auto

declare bitLength.simps [simp del]

text \<open>
  The double nearest to an integer, ties to the even significand: integers below 2^53 in
  magnitude are doubles themselves, larger ones keep their 53 leading binary digits, and
  what rounds to 2^1024 or more is an infinity. (For more than 20 decimal digits the
  language standard also lets an engine read the digits after the 20th as zeros; the
  nearest double is what the engines return.)
\<close>

definition roundToDouble :: "int \<Rightarrow> number" where
  "roundToDouble i =
     (let m = nat \<bar>i\<bar> in
      if m < 2 ^ 53 then Finite i
      else
        let ulp = 2 ^ (bitLength m - 53);
            q = m div ulp;
            r = m mod ulp;
            significand = (if 2 * r < ulp \<or> (2 * r = ulp \<and> even q) then q else q + 1);
            rounded = significand * ulp
        in if rounded \<ge> 2 ^ 1024 then (if i < 0 then NegInfinity else PosInfinity)
           else Finite (if i < 0 then - int rounded else int rounded))"

text \<open>
  \<open>parseInt(string, radix)\<close> for an explicit radix \<open>R\<close> between 2 and 36: leading white
  space is skipped, one sign is read, for radix 16 a \<open>0x\<close>/\<open>0X\<close> prefix is dropped, and the
  longest prefix of radix-\<open>R\<close> digits is the number, rounded to a double; no digit at all
  gives \<open>NaN\<close>. What follows the digits is ignored, so \<open>12px\<close> and \<open>1e3\<close> read as 12 and 1.
\<close>

definition parseInt :: "string \<Rightarrow> nat \<Rightarrow> number" where
  "parseInt inputString R =
     (let S = trimStart inputString;
          sign = (if startsWith S ''-'' then - 1 else 1 :: int);
          S1 = (if startsWith S ''+'' \<or> startsWith S ''-'' then tl S else S);
          S2 = (if R = 16 \<and> (startsWith S1 ''0x'' \<or> startsWith S1 ''0X'') then drop 2 S1 else S1);
          Z = takeWhile (isRadixDigit R) S2
      in if Z = [] then NaN else roundToDouble (sign * int (digitsValue R 0 Z)))"

section \<open>Validators\<close>

definition isHexDigit :: "char \<Rightarrow> bool" where
  "isHexDigit c =
     (let n = (of_char c :: nat) in
      (65 \<le> n \<and> n \<le> 70) \<or> (97 \<le> n \<and> n \<le> 102) \<or> (48 \<le> n \<and> n \<le> 57))"

text \<open>The regular expression \<^verbatim>\<open>/^#([A-Fa-f0-9]{6}|[A-Fa-f0-9]{3})$/\<close>.\<close>

fun hexPattern_test :: "string \<Rightarrow> bool" where
  "hexPattern_test [] = False"
| "hexPattern_test (c # ds) =
     (c = CHR ''#'' \<and> (length ds = 6 \<or> length ds = 3) \<and> list_all isHexDigit ds)"

definition validateHexColor :: "string \<Rightarrow> ValidationResult" where
  "validateHexColor color =
     (if color = [] then
        \<lparr>isValid = False, error = Some ''Color is required'', warning = None\<rparr>
      else if \<not> hexPattern_test color then
        \<lparr>isValid = False,
         error = Some ''Invalid hex color format (use #RRGGBB or #RGB)'', warning = None\<rparr>
      else \<lparr>isValid = True, error = None, warning = None\<rparr>)"

section \<open>Contrast analyzer\<close>

text \<open>ToInt32: an integer modulo 2^32, and 0 for \<open>NaN\<close> and the infinities.\<close>

definition toInt32 :: "number \<Rightarrow> 32 word" where
  "toInt32 v = (case v of Finite n \<Rightarrow> word_of_int n | _ \<Rightarrow> 0)"

text \<open>
  The three channels \<open>(rgb >> 16) & 0xff\<close>, \<open>(rgb >> 8) & 0xff\<close>, \<open>(rgb >> 0) & 0xff\<close>
  of \<open>rgb = parseInt(hex.slice(1), 16)\<close>.
\<close>

definition hexChannels :: "string \<Rightarrow> int \<times> int \<times> int" where
  "hexChannels hex =
     (let rgb = toInt32 (parseInt (drop 1 hex) 16);
          r = signed_drop_bit 16 rgb AND 0xff;
          g = signed_drop_bit 8 rgb AND 0xff;
          b = signed_drop_bit 0 rgb AND 0xff
      in (sint r, sint g, sint b))"

text \<open>The per-channel map of \<open>calculateLuminance\<close>.\<close>

definition linearize :: "int \<Rightarrow> real" where
  "linearize c0 =
     (let c = real_of_int c0 / 255
      in if c \<le> 0.03928 then c / 12.92 else ((c + 0.055) / 1.055) powr 2.4)"

definition calculateLuminance :: "string \<Rightarrow> real" where
  "calculateLuminance hex =
     (case hexChannels hex of (r, g, b) \<Rightarrow>
        0.2126 * linearize r + 0.7152 * linearize g + 0.0722 * linearize b)"

definition validateColorContrast :: "string \<Rightarrow> string \<Rightarrow> ColorValidationResult" where
  "validateColorContrast darkColor lightColor =
     (let darkValidation = validateHexColor darkColor;
          lightValidation = validateHexColor lightColor
      in if \<not> isValid darkValidation \<or> \<not> isValid lightValidation then
           \<lparr>isValid = False,
            error = (case error darkValidation of Some e \<Rightarrow> Some e
                     | None \<Rightarrow> error lightValidation),
            warning = None, contrastRatio = None, scannable = None\<rparr>
         else
           let darkLum = calculateLuminance darkColor;
               lightLum = calculateLuminance lightColor;
               ratio = (max darkLum lightLum + 0.05) / (min darkLum lightLum + 0.05);
               scan = (ratio \<ge> 3)
           in \<lparr>isValid = True, error = None,
               warning = (if \<not> scan then Some ''Low contrast may affect QR code scannability''
                          else None),
               contrastRatio = Some ratio, scannable = Some scan\<rparr>)"

section \<open>URL and numeric input validators\<close>

text \<open>
  \<open>sanitizeUrl\<close> is the same function in both React components and, as \<open>sanitizeURL\<close>,
  in \<^verbatim>\<open>public/js/script.js\<close>.
\<close>

definition sanitizeUrl :: "string \<Rightarrow> string" where
  "sanitizeUrl input =
     (let trimmed = trim input
      in if \<not> startsWith trimmed ''http://'' \<and> \<not> startsWith trimmed ''https://''
         then ''https://'' @ trimmed
         else trimmed)"

text \<open>Decimal rendering of an integer, as a template literal interpolates it.\<close>

definition digitChar :: "nat \<Rightarrow> char" where
  "digitChar d = ''0123456789'' ! d"

function showNat :: "nat \<Rightarrow> string" where
  "showNat n = (if n < 10 then [digitChar n] else showNat (n div 10) @ [digitChar (n mod 10)])"
  by pat_completeness auto
termination
  by (relation "measure id") auto

definition showInt :: "int \<Rightarrow> string" where
  "showInt i = (if i < 0 then CHR ''-'' # showNat (nat (- i)) else showNat (nat i))"

text \<open>
  \<open>validateNumericInput(value, min, max, defaultValue)\<close>. The bounds and the default are
  integers at every call site (128, 1024 or 512, 256 for the size; 0, 10, 2 for the margin);
  as \<open>int\<close> they stand for doubles, and the decimal rendering in the message is the
  source's, as long as they are below 2^53 in magnitude. An infinite \<open>numValue\<close> is outside
  every such range: \<open>Math.max(min, Math.min(max, Infinity))\<close> is \<open>Math.max(min, max)\<close> and
  \<open>Math.max(min, Math.min(max, -Infinity))\<close> is \<open>min\<close>.
\<close>

definition validateNumericInput :: "string \<Rightarrow> int \<Rightarrow> int \<Rightarrow> int \<Rightarrow> NumericValidationResult" where
  "validateNumericInput value minV maxV defaultValue =
     (if value = [] \<or> trim value = [] then
        \<lparr>isValid = True, error = None, warning = None, parsedValue = defaultValue\<rparr>
      else case parseInt value 10 of
        NaN \<Rightarrow>
          \<lparr>isValid = False, error = Some ''Must be a valid number'', warning = None,
           parsedValue = defaultValue\<rparr>
      | Finite numValue \<Rightarrow>
          if numValue < minV \<or> numValue > maxV then
            \<lparr>isValid = False,
             error = Some (''Value must be between '' @ showInt minV @ '' and '' @ showInt maxV),
             warning = None,
             parsedValue = max minV (min maxV numValue)\<rparr>
          else \<lparr>isValid = True, error = None, warning = None, parsedValue = numValue\<rparr>
      | PosInfinity \<Rightarrow>
          \<lparr>isValid = False,
           error = Some (''Value must be between '' @ showInt minV @ '' and '' @ showInt maxV),
           warning = None,
           parsedValue = max minV maxV\<rparr>
      | NegInfinity \<Rightarrow>
          \<lparr>isValid = False,
           error = Some (''Value must be between '' @ showInt minV @ '' and '' @ showInt maxV),
           warning = None,
           parsedValue = minV\<rparr>)"

section \<open>The WCAG definition of relative luminance\<close>

text \<open>
  The specification's \<open>relativeLuminance\<close>, written from its words and the WCAG text, for
  comparison with \<open>calculateLuminance\<close>: a colour written \<open>#RRGGBB\<close> has the channels
  \<open>RR\<close>, \<open>GG\<close>, \<open>BB\<close>; the short form \<open>#RGB\<close> stands for \<open>#RRGGBB\<close> with every digit
  doubled; each channel is divided by 255, linearised and weighted.
\<close>

definition spec_hexPair :: "char \<Rightarrow> char \<Rightarrow> int" where
  "spec_hexPair hi lo = int (16 * the (digitVal hi) + the (digitVal lo))"

definition spec_decodeHex :: "string \<Rightarrow> (int \<times> int \<times> int) option" where
  "spec_decodeHex hex =
     (if \<not> hexPattern_test hex then None
      else case tl hex of
        [r1, r2, g1, g2, b1, b2] \<Rightarrow>
          Some (spec_hexPair r1 r2, spec_hexPair g1 g2, spec_hexPair b1 b2)
      | [r, g, b] \<Rightarrow> Some (spec_hexPair r r, spec_hexPair g g, spec_hexPair b b)
      | _ \<Rightarrow> None)"

definition spec_linear :: "real \<Rightarrow> real" where
  "spec_linear c = (if c \<le> 0.03928 then c / 12.92 else ((c + 0.055) / 1.055) powr 2.4)"

definition spec_relativeLuminance :: "string \<Rightarrow> real option" where
  "spec_relativeLuminance hex =
     (case spec_decodeHex hex of
        None \<Rightarrow> None
      | Some (r, g, b) \<Rightarrow>
          Some (0.2126 * spec_linear (real_of_int r / 255)
              + 0.7152 * spec_linear (real_of_int g / 255)
              + 0.0722 * spec_linear (real_of_int b / 255)))"

section \<open>Upload validation\<close>

text \<open>
  The repository holds three implementations of the same screen: the React component
  \<^verbatim>\<open>src/components/QRGenerator.tsx\<close> (the baseline), the enterprise React component
  (the second document of \<^verbatim>\<open>src/components/Logo.tsx\<close>, with the 5 MB limit) and the
  plain JavaScript class of \<^verbatim>\<open>public/js/script.js\<close>. Functions that are the same text in
  the components are modelled once; where they differ the baseline keeps the source's name
  and the others carry the suffixes \<open>_enterprise\<close> and \<open>_vanilla\<close>.

  A \<open>File\<close> as the validators read it: its name, its size in bytes and its declared MIME
  type.
\<close>

record File =
  file_name :: string
  file_size :: nat
  file_type :: string

text \<open>Baseline, \<^verbatim>\<open>QRGenerator.tsx\<close>: size and declared type only.\<close>

definition validateFileUpload :: "File \<Rightarrow> ValidationResult" where
  "validateFileUpload file =
     (if file_size file > 2 * 1024 * 1024 then
        \<lparr>isValid = False, error = Some ''File size must be under 2MB'', warning = None\<rparr>
      else if \<not> List.member
                 [''image/jpeg'', ''image/jpg'', ''image/png'', ''image/gif'', ''image/webp'']
                 (file_type file) then
        \<lparr>isValid = False, error = Some ''File must be an image (JPEG, PNG, GIF, or WebP)'',
         warning = None\<rparr>
      else \<lparr>isValid = True, error = None, warning = None\<rparr>)"

text \<open>
  \<open>toLowerCase\<close> on 8-bit code units: A-Z and the Latin-1 capitals 0xC0-0xDE (without the
  multiplication sign 0xD7) move up by 32.
\<close>

definition toLowerCaseChar :: "char \<Rightarrow> char" where
  "toLowerCaseChar c =
     (let n = (of_char c :: nat)
      in if (65 \<le> n \<and> n \<le> 90) \<or> (192 \<le> n \<and> n \<le> 222 \<and> n \<noteq> 215)
         then char_of (n + 32) else c)"

definition toLowerCase :: "string \<Rightarrow> string" where
  "toLowerCase s = map toLowerCaseChar s"

text \<open>\<open>lastIndexOf\<close> of one character: the index of its last occurrence, or -1.\<close>

definition lastIndexOf :: "string \<Rightarrow> char \<Rightarrow> int" where
  "lastIndexOf s c =
     (if c \<in> set s then int (length s) - 1 - int (length (takeWhile (\<lambda>x. x \<noteq> c) (rev s)))
      else - 1)"

text \<open>\<open>substring(start)\<close>: a negative start counts as 0.\<close>

definition substring :: "string \<Rightarrow> int \<Rightarrow> string" where
  "substring s start = drop (nat start) s"

definition endsWith :: "string \<Rightarrow> string \<Rightarrow> bool" where
  "endsWith s searchString =
     (length searchString \<le> length s
      \<and> drop (length s - length searchString) s = searchString)"

text \<open>
  Case-insensitive matching of the regular expressions below compares canonicalised
  characters. Their patterns hold ASCII letters only, and a character outside ASCII never
  canonicalises to an ASCII one, so upper-casing a-z decides every comparison.
\<close>

definition canonicalize :: "char \<Rightarrow> char" where
  "canonicalize c =
     (let n = (of_char c :: nat) in if 97 \<le> n \<and> n \<le> 122 then char_of (n - 32) else c)"

text \<open>\<^verbatim>\<open>/[<>:"|?*\u0000-\u001F\u0080-\u009F]/\<close>\<close>

definition unsafeChar :: "char \<Rightarrow> bool" where
  "unsafeChar c =
     (let n = (of_char c :: nat)
      in n \<in> {60, 62, 58, 34, 124, 63, 42} \<or> n \<le> 31 \<or> (128 \<le> n \<and> n \<le> 159))"

text \<open>\<^verbatim>\<open>/^\.+$/\<close>\<close>

definition onlyDots :: "string \<Rightarrow> bool" where
  "onlyDots s = (s \<noteq> [] \<and> list_all (\<lambda>c. c = CHR ''.'') s)"

text \<open>\<^verbatim>\<open>/^(CON|PRN|AUX|NUL|COM[1-9]|LPT[1-9])$/i\<close>\<close>

definition reservedName :: "string \<Rightarrow> bool" where
  "reservedName s =
     (let u = map canonicalize s
      in List.member [''CON'', ''PRN'', ''AUX'', ''NUL''] u
         \<or> (length u = 4 \<and> List.member [''COM'', ''LPT''] (take 3 u)
             \<and> 49 \<le> (of_char (u ! 3) :: nat) \<and> (of_char (u ! 3) :: nat) \<le> 57))"

text \<open>\<^verbatim>\<open>/\.(bat|cmd|exe|scr|com|pif|vbs|js|jar|app|deb|dmg|pkg|rpm)$/i\<close>\<close>

definition executableExtension :: "string \<Rightarrow> bool" where
  "executableExtension s =
     list_ex (\<lambda>e. endsWith (map canonicalize s) (CHR ''.'' # e))
       [''BAT'', ''CMD'', ''EXE'', ''SCR'', ''COM'', ''PIF'', ''VBS'', ''JS'', ''JAR'', ''APP'',
        ''DEB'', ''DMG'', ''PKG'', ''RPM'']"

definition dangerousPatterns :: "(string \<Rightarrow> bool) list" where
  "dangerousPatterns = [list_ex unsafeChar, onlyDots, reservedName, executableExtension]"

definition allowedExtensions :: "string list" where
  "allowedExtensions =
     [''.jpg'', ''.jpeg'', ''.png'', ''.gif'', ''.webp'', ''.svg'', ''.avif'', ''.bmp'']"

definition fileExtension :: "File \<Rightarrow> string" where
  "fileExtension file =
     substring (toLowerCase (file_name file)) (lastIndexOf (file_name file) CHR ''.'')"

text \<open>Enterprise component: size window, declared type, extension, name.\<close>

definition validateFileUpload_enterprise :: "File \<Rightarrow> ValidationResult" where
  "validateFileUpload_enterprise file =
     (let maxSize = 5 * 1024 * 1024 in
      if file_size file > maxSize then
        \<lparr>isValid = False, error = Some ''File size must be under 5MB'', warning = None\<rparr>
      else if file_size file < 100 then
        \<lparr>isValid = False, error = Some ''File appears to be empty or corrupted'',
         warning = None\<rparr>
      else if \<not> List.member
                 [''image/jpeg'', ''image/jpg'', ''image/png'', ''image/gif'',
                  ''image/webp'', ''image/svg+xml'', ''image/avif'', ''image/bmp'']
                 (file_type file) then
        \<lparr>isValid = False,
         error = Some ''File must be a valid image format (JPEG, PNG, GIF, WebP, SVG, AVIF, or BMP)'',
         warning = None\<rparr>
      else if \<not> List.member allowedExtensions (fileExtension file) then
        \<lparr>isValid = False, error = Some ''File extension does not match allowed image formats'',
         warning = None\<rparr>
      else if length (file_name file) > 255 then
        \<lparr>isValid = False, error = Some ''File name is too long (maximum 255 characters)'',
         warning = None\<rparr>
      else if list_ex (\<lambda>pattern. pattern (file_name file)) dangerousPatterns then
        \<lparr>isValid = False, error = Some ''File name contains unsafe characters or patterns'',
         warning = None\<rparr>
      else \<lparr>isValid = True, error = None, warning = None\<rparr>)"

text \<open>A notification: title and description of the \<open>toast\<close> / \<open>showToast\<close> call.\<close>

datatype notification = Toast string string

text \<open>
  What ends up as the logo: the data URL of the file's own bytes
  (\<open>FileReader.readAsDataURL\<close>), or the data URL of a canvas of the given width and height
  encoded in the given format and quality (\<open>canvas.toDataURL(format, quality)\<close>).
\<close>

datatype LogoAsset = FileBytes File | CanvasData nat nat string real

text \<open>
  The browser, as far as an upload depends on it: the decoded width and height of a file's
  image (\<open>None\<close> when the image fails to load), whether the file can be read, whether
  a 2D canvas context is available, and the message of the exception that drawing the
  image on a canvas and encoding the canvas throws (\<open>None\<close> when they succeed).
\<close>

record Browser =
  decodeImage :: "File \<Rightarrow> (nat \<times> nat) option"
  readable :: "File \<Rightarrow> bool"
  canvas2d :: bool
  drawError :: "File \<Rightarrow> string option"

text \<open>The pixel size of the image that a logo holds: the file's own image, or the canvas.\<close>

definition logoSize :: "Browser \<Rightarrow> LogoAsset \<Rightarrow> (nat \<times> nat) option" where
  "logoSize browser asset =
     (case asset of
        FileBytes file \<Rightarrow> decodeImage browser file
      | CanvasData w h format quality \<Rightarrow> Some (w, h))"

text \<open>
  \<^verbatim>\<open>script.js\<close>, \<open>processLogoFile\<close>: two checks, then the file's data URL becomes the logo.
  The file is taken to be readable: the source registers no \<open>onerror\<close> handler, so a failed
  read shows nothing and leaves the logo as it was.
\<close>

definition processLogoFile :: "File \<Rightarrow> notification + LogoAsset" where
  "processLogoFile file =
     (if file_size file > 2 * 1024 * 1024 then
        Inl (Toast ''File too large'' ''Logo must be under 2MB'')
      else if \<not> startsWith (file_type file) ''image/'' then
        Inl (Toast ''Invalid file type'' ''Please select an image file'')
      else Inr (FileBytes file))"


text \<open>\<open>Math.round\<close>: the nearest integer, halves upwards.\<close>

definition Math_round :: "real \<Rightarrow> int" where
  "Math_round x = \<lfloor>x + 1 / 2\<rfloor>"

text \<open>\<open>String.prototype.includes\<close>.\<close>

definition includes_str :: "string \<Rightarrow> string \<Rightarrow> bool" where
  "includes_str s sub = list_ex (\<lambda>i. startsWith (drop i s) sub) [0..<Suc (length s)]"

text \<open>
  The size computation of \<open>optimizeImage\<close>, over the reals. A quotient by 0 is \<open>Infinity\<close> in the source,
  which \<open>Math.min\<close> discards in favour of the other quotient.
\<close>

definition optimizedSize :: "nat \<Rightarrow> nat \<Rightarrow> nat \<times> nat" where
  "optimizedSize width height =
     (let maxDimension = 512 :: nat in
      if width > maxDimension \<or> height > maxDimension then
        let ratio = (if width = 0 then real maxDimension / real height
                     else if height = 0 then real maxDimension / real width
                     else min (real maxDimension / real width) (real maxDimension / real height))
        in (nat (Math_round (real width * ratio)), nat (Math_round (real height * ratio)))
      else (width, height))"

text \<open>
  \<open>optimizeImage\<close>: the canvas context is asked for first, then the image is loaded; an
  exception while drawing or encoding is caught and rejects with its message.
\<close>

definition optimizeImage :: "Browser \<Rightarrow> File \<Rightarrow> string + LogoAsset" where
  "optimizeImage browser file =
     (if \<not> canvas2d browser then Inl ''Canvas context not available''
      else case decodeImage browser file of
        None \<Rightarrow> Inl ''Failed to load image for optimization''
      | Some (w, h) \<Rightarrow>
          (case optimizedSize w h of (width, height) \<Rightarrow>
             let quality = (if file_size file > 1024 * 1024 then 0.85 else 0.95);
                 format = (if includes_str (file_type file) ''png'' \<or> includes_str (file_type file) ''gif''
                           then ''image/png'' else ''image/jpeg'')
             in case drawError browser file of
                  Some message \<Rightarrow> Inl (''Image optimization failed: '' @ message)
                | None \<Rightarrow> Inr (CanvasData width height format quality)))"

text \<open>Enterprise \<open>handleLogoUpload\<close>.\<close>

definition handleLogoUpload_enterprise :: "Browser \<Rightarrow> File \<Rightarrow> notification + LogoAsset" where
  "handleLogoUpload_enterprise browser file =
     (let validation = validateFileUpload_enterprise file in
      if \<not> isValid validation then Inl (Toast ''Invalid File'' (the (error validation)))
      else case decodeImage browser file of
        None \<Rightarrow> Inl (Toast ''Upload Failed'' ''Failed to load image for dimension checking'')
      | Some (width, height) \<Rightarrow>
          if width < 32 \<or> height < 32 then
            Inl (Toast ''Image Too Small''
                   ''Logo must be at least 32x32 pixels for optimal quality'')
          else if width > 4096 \<or> height > 4096 then
            Inl (Toast ''Image Too Large'' ''Logo dimensions must be under 4096x4096 pixels'')
          else case optimizeImage browser file of
            Inl message \<Rightarrow> Inl (Toast ''Upload Failed'' message)
          | Inr optimizedDataUrl \<Rightarrow> Inr optimizedDataUrl)"

text \<open>
  The specification's downscaling, from its words: the scale that fits a \<open>w \<times> h\<close> image into
  the 512 \<times> 512 square with its aspect ratio kept, and never enlarges it.
\<close>

definition spec_fitScale :: "nat \<Rightarrow> nat \<Rightarrow> real" where
  "spec_fitScale w h = min 1 (512 / real (max w h))"

text \<open>Sample inputs: a PNG file of 1 MB and browsers that decode it as 4096 \<times> 4096 and as 1000 \<times> 1000.\<close>

definition logoPng :: File where
  "logoPng = \<lparr>file_name = ''logo.png'', file_size = 1000000, file_type = ''image/png''\<rparr>"

definition browser4096 :: Browser where
  "browser4096 =
     \<lparr>decodeImage = (\<lambda>f. Some (4096, 4096)), readable = (\<lambda>f. True), canvas2d = True,
      drawError = (\<lambda>f. None)\<rparr>"

definition browser1000 :: Browser where
  "browser1000 =
     \<lparr>decodeImage = (\<lambda>f. Some (1000, 1000)), readable = (\<lambda>f. True), canvas2d = True,
      drawError = (\<lambda>f. None)\<rparr>"

section \<open>SVG export\<close>

datatype ErrorCorrectionLevel = EC_L | EC_M | EC_Q | EC_H

record QROptions =
  errorCorrectionLevel :: ErrorCorrectionLevel
  width :: int
  margin :: int
  dark :: string
  light :: string

text \<open>
  A canvas is its pixel size and what has been drawn on it, in order: the encoder's
  rendering of a text, a filled circle (\<open>ctx.arc\<close> and \<open>ctx.fill\<close>: centre, radius, colour)
  and an image (\<open>ctx.drawImage\<close>: source, position, size).
\<close>

datatype drawing =
    QRModules string QROptions
  | Circle int int int string
  | Image string int int int int

record Canvas =
  canvas_width :: int
  canvas_height :: int
  drawn :: "drawing list"

text \<open>
  The collaborators that are outside the repository: the \<open>qrcode\<close> library
  (\<open>QRCode.toString\<close> with \<open>type: 'svg'\<close> and \<open>QRCode.toCanvas\<close>, \<open>None\<close> when the call
  throws; of the canvas the encoder fills only the pixel size is needed), the PNG codec
  behind \<open>canvas.toDataURL\<close>, whether an image source loads, and whether a 2D context can be
  had.
\<close>

record Platform =
  QRCode_toString :: "string \<Rightarrow> QROptions \<Rightarrow> string option"
  QRCode_toCanvas :: "string \<Rightarrow> QROptions \<Rightarrow> (int \<times> int) option"
  canvas_toDataURL :: "Canvas \<Rightarrow> string"
  imageLoads :: "string \<Rightarrow> bool"
  context2d :: bool

text \<open>The state of a React component that an export reads.\<close>

record AppState =
  url :: string
  qrDataUrl :: string
  logo :: "string option"
  options :: QROptions

text \<open>The state of the \<open>CustQRGenerator\<close> object of \<^verbatim>\<open>script.js\<close> that an export reads.\<close>

record VanillaState =
  currentQRData :: "string option"
  currentLogo :: "string option"
  vanilla_options :: QROptions

record Download =
  fileName :: string
  mimeType :: string
  content :: string

datatype export_error = EncoderFailed | ContextUnavailable

text \<open>A string or \<open>null\<close> used as a condition: \<open>null\<close> and the empty string are false.\<close>

definition truthy :: "string option \<Rightarrow> bool" where
  "truthy s = (case s of None \<Rightarrow> False | Some t \<Rightarrow> t \<noteq> [])"

text \<open>
  Baseline \<open>downloadQR('svg')\<close>: nothing happens without a generated QR code; otherwise the
  download is what \<open>QRCode.toString\<close> returns.
\<close>

definition downloadQR_svg :: "Platform \<Rightarrow> AppState \<Rightarrow> (export_error + Download) option" where
  "downloadQR_svg p st =
     (if qrDataUrl st = [] then None
      else case QRCode_toString p (sanitizeUrl (url st)) (options st) of
        None \<Rightarrow> Some (Inl EncoderFailed)
      | Some svgString \<Rightarrow>
          Some (Inr \<lparr>fileName = ''custqr-code.svg'', mimeType = ''image/svg+xml'',
                     content = svgString\<rparr>))"

text \<open>\<^verbatim>\<open>script.js\<close>: \<open>downloadQR('svg')\<close> with \<open>downloadSVG\<close>.\<close>

definition downloadQR_svg_vanilla ::
  "Platform \<Rightarrow> VanillaState \<Rightarrow> (export_error + Download) option" where
  "downloadQR_svg_vanilla p st =
     (if \<not> truthy (currentQRData st) then None
      else case QRCode_toString p (the (currentQRData st)) (vanilla_options st) of
        None \<Rightarrow> Some (Inl EncoderFailed)
      | Some svgString \<Rightarrow>
          Some (Inr \<lparr>fileName = ''custqr-code.svg'', mimeType = ''image/svg+xml'',
                     content = svgString\<rparr>))"

text \<open>
  Enterprise \<open>addLogoToCanvas\<close>. A logo image that fails to load is caught inside the
  function, which then leaves the canvas as it is.
\<close>

definition addLogoToCanvas :: "Platform \<Rightarrow> string option \<Rightarrow> Canvas \<Rightarrow> export_error + Canvas" where
  "addLogoToCanvas p lg canvas =
     (if \<not> truthy lg then Inr canvas
      else if \<not> context2d p then Inl ContextUnavailable
      else if \<not> imageLoads p (the lg) then Inr canvas
      else
        let canvasSize = min (canvas_width canvas) (canvas_height canvas);
            logoSize = Math_round (real_of_int canvasSize * 0.20);
            circlePadding = max (Math_round (real_of_int logoSize * 0.12)) 3;
            circleRadius = Math_round (real_of_int logoSize / 2 + real_of_int circlePadding);
            circleCenterX = Math_round (real_of_int (canvas_width canvas) / 2);
            circleCenterY = Math_round (real_of_int (canvas_height canvas) / 2);
            logoX = Math_round (real_of_int circleCenterX - real_of_int logoSize / 2);
            logoY = Math_round (real_of_int circleCenterY - real_of_int logoSize / 2)
        in Inr (canvas\<lparr>drawn := drawn canvas @
                  [Circle circleCenterX circleCenterY circleRadius ''#ffffff'',
                   Image (the lg) logoX logoY logoSize logoSize]\<rparr>))"

definition newline :: string where
  "newline = [CHR 0x0A]"

text \<open>
  The template literal of the SVG wrapper, as the list of its pieces. The attributes that
  carry the declared size and the embedded image are pieces of their own.
\<close>

definition svgSizeAttributes :: "QROptions \<Rightarrow> string" where
  \<open>svgSizeAttributes opts =
     ''width="'' @ showInt (width opts) @ ''" height="'' @ showInt (width opts) @ ''"''\<close>

definition svgViewBoxAttribute :: "QROptions \<Rightarrow> string" where
  \<open>svgViewBoxAttribute opts =
     ''viewBox="0 0 '' @ showInt (width opts) @ '' '' @ showInt (width opts) @ ''"''\<close>

definition svgImageElement :: "QROptions \<Rightarrow> string \<Rightarrow> string" where
  \<open>svgImageElement opts canvasDataUrl =
     ''<image x="0" y="0" width="'' @ showInt (width opts) @ ''" height="''
       @ showInt (width opts) @ ''" '' @ newline @
     ''         href="'' @ canvasDataUrl @ ''" '' @ newline @
     ''         preserveAspectRatio="xMidYMid meet"'' @ newline @
     ''         style="image-rendering: optimizeQuality; shape-rendering: crispEdges;" />''\<close>

definition svgWrapper :: "QROptions \<Rightarrow> string \<Rightarrow> string \<Rightarrow> string" where
  \<open>svgWrapper opts u canvasDataUrl =
     concat
      [''<?xml version="1.0" encoding="UTF-8"?>'', newline,
       ''<svg xmlns="http://www.w3.org/2000/svg" xmlns:xlink="http://www.w3.org/1999/xlink" '',
       newline,
       ''     '', svgSizeAttributes opts, '' '', newline,
       ''     '', svgViewBoxAttribute opts, newline,
       ''     style="background-color: '', light opts, '';">'', newline,
       ''  <!-- CustQR Professional QR Code with Logo -->'', newline,
       ''  <title>CustQR Code with Logo</title>'', newline,
       ''  <desc>Professional QR Code for '', u, '' with embedded logo</desc>'', newline,
       ''  '', newline,
       ''  <!-- High-quality QR code with logo embedded -->'', newline,
       ''  '', svgImageElement opts canvasDataUrl, newline,
       ''</svg>'']\<close>

text \<open>Enterprise \<open>generateDownloadQR('svg')\<close>.\<close>

definition generateDownloadQR_svg :: "Platform \<Rightarrow> AppState \<Rightarrow> export_error + string" where
  "generateDownloadQR_svg p st =
     (let sanitizedUrl = sanitizeUrl (url st) in
      if truthy (logo st) then
        case QRCode_toCanvas p sanitizedUrl (options st) of
          None \<Rightarrow> Inl EncoderFailed
        | Some (w, h) \<Rightarrow>
            (case addLogoToCanvas p (logo st)
                    \<lparr>canvas_width = w, canvas_height = h,
                     drawn = [QRModules sanitizedUrl (options st)]\<rparr> of
               Inl e \<Rightarrow> Inl e
             | Inr svgCanvas \<Rightarrow>
                 Inr (svgWrapper (options st) (url st) (canvas_toDataURL p svgCanvas)))
      else
        case QRCode_toString p sanitizedUrl (options st) of
          None \<Rightarrow> Inl EncoderFailed
        | Some svgString \<Rightarrow> Inr svgString)"

text \<open>Enterprise \<open>downloadQR('svg')\<close>.\<close>

definition downloadQR_svg_enterprise ::
  "Platform \<Rightarrow> AppState \<Rightarrow> (export_error + Download) option" where
  "downloadQR_svg_enterprise p st =
     (if qrDataUrl st = [] then None
      else case generateDownloadQR_svg p st of
        Inl e \<Rightarrow> Some (Inl e)
      | Inr svgString \<Rightarrow>
          Some (Inr \<lparr>fileName = ''custqr-code.svg'', mimeType = ''image/svg+xml'',
                     content = svgString\<rparr>))"

text \<open>
  A sample platform: the encoder renders a text as \<open><svg>text</svg>\<close> and fills a square
  canvas of the requested width, the codec writes the number of drawings, every image loads.
\<close>

definition samplePlatform :: Platform where
  "samplePlatform =
     \<lparr>QRCode_toString = (\<lambda>text opts. Some (''<svg>'' @ text @ ''</svg>'')),
      QRCode_toCanvas = (\<lambda>text opts. Some (width opts, width opts)),
      canvas_toDataURL = (\<lambda>c. ''data:image/png;base64,'' @ showNat (length (drawn c))),
      imageLoads = (\<lambda>src. True),
      context2d = True\<rparr>"

definition sampleOptions :: QROptions where
  "sampleOptions =
     \<lparr>errorCorrectionLevel = EC_M, width = 256, margin = 2, dark = ''#1e293b'',
      light = ''#ffffff''\<rparr>"

definition sampleState :: AppState where
  "sampleState =
     \<lparr>url = ''example.com'', qrDataUrl = ''data:image/png;base64,AAAA'',
      logo = Some ''data:image/png;base64,BBBB'', options = sampleOptions\<rparr>"

section \<open>Debounced regeneration\<close>

text \<open>
  Time is a clock in milliseconds. \<open>setTimeout(f, d)\<close> at clock \<open>t\<close> is a pending timer due
  at \<open>t + d\<close>; \<open>clearTimeout\<close> removes it; a variable that holds at most one timer id whose
  old timer is cleared before a new one is stored is an \<open>option\<close>. What is outside the
  repository is a parameter: the regular expression and the URL parser behind
  \<open>validateUrl\<close>, and the encoder calls that produce the preview (\<open>QRCode.toDataURL\<close>
  in the React components, \<open>None\<close> when it throws; \<open>QRCode.toCanvas\<close> in
  \<^verbatim>\<open>script.js\<close>, of which only whether it returns or throws is needed).
\<close>

record Runtime =
  urlPattern_test :: "string \<Rightarrow> bool"
  URL_protocol :: "string \<Rightarrow> string option"
  QRCode_toDataURL :: "string \<Rightarrow> QROptions \<Rightarrow> string option"
  QRCode_toCanvas_returns :: "string \<Rightarrow> QROptions \<Rightarrow> bool"

text \<open>
  \<open>validateUrl\<close> (\<open>validateURL\<close> in \<^verbatim>\<open>script.js\<close>); \<open>URL_protocol\<close> is \<open>None\<close> where
  \<open>new URL\<close> throws.
\<close>

definition validateUrl :: "Runtime \<Rightarrow> string \<Rightarrow> bool" where
  "validateUrl rt input =
     (if input = [] then False
      else if urlPattern_test rt input then True
      else case URL_protocol rt input of
        Some protocol \<Rightarrow> startsWith protocol ''http''
      | None \<Rightarrow> (case URL_protocol rt (''https://'' @ input) of
                   Some protocol \<Rightarrow> True
                 | None \<Rightarrow> False))"

subsection \<open>The class of \<^verbatim>\<open>script.js\<close>\<close>

text \<open>
  A pending \<open>debounceTimer\<close>: when it is due and the \<open>url\<close> argument its callback closes
  over.
\<close>

record DebounceTimer =
  timer_due :: nat
  timer_url :: "string option"

record Generator = VanillaState +
  urlInputValue :: string
  debounceTimer :: "DebounceTimer option"
  generatorClock :: nat
  generated :: "(string \<times> QROptions) list"

text \<open>\<open>generateQRDebounced(url = null)\<close>\<close>

definition generateQRDebounced :: "string option \<Rightarrow> Generator \<Rightarrow> Generator" where
  "generateQRDebounced u g =
     g\<lparr>debounceTimer := Some \<lparr>timer_due = generatorClock g + 500, timer_url = u\<rparr>\<rparr>"

text \<open>
  \<open>generateQR(url)\<close>, taken as one step: its \<open>isGenerating\<close> flag is set and reset within
  the step, so the guard at its head never finds it set. The call of \<open>QRCode.toCanvas\<close>
  with the sanitized URL and the options of that moment is appended to \<open>generated\<close>;
  \<open>currentQRData\<close> is set when the call returns.
\<close>

definition generateQR :: "Runtime \<Rightarrow> string \<Rightarrow> Generator \<Rightarrow> Generator" where
  "generateQR rt targetURL g =
     (if targetURL = [] \<or> \<not> validateUrl rt targetURL then g
      else
        let sanitizedURL = sanitizeUrl targetURL;
            g' = g\<lparr>generated := generated g @ [(sanitizedURL, vanilla_options g)]\<rparr>
        in if QRCode_toCanvas_returns rt sanitizedURL (vanilla_options g)
           then g'\<lparr>currentQRData := Some sanitizedURL\<rparr>
           else g')"

text \<open>The callback of the timer: \<open>targetURL = url || urlInput.value\<close>.\<close>

definition debounceCallback :: "Runtime \<Rightarrow> string option \<Rightarrow> Generator \<Rightarrow> Generator" where
  "debounceCallback rt u g =
     (let targetURL = (if truthy u then the u else urlInputValue g)
      in if targetURL \<noteq> [] \<and> validateUrl rt targetURL then generateQR rt targetURL g else g)"

text \<open>
  The \<open>input\<close> listener of the size field:
  \<open>this.options.width = parseInt(e.target.value) || 256; this.generateQRDebounced()\<close>.
  The parsed number arrives as \<open>None\<close> for \<open>NaN\<close>.
\<close>

definition parsedWidth :: "int option \<Rightarrow> int" where
  "parsedWidth parsed = (case parsed of None \<Rightarrow> 256 | Some n \<Rightarrow> if n = 0 then 256 else n)"

definition onSizeInput :: "int option \<Rightarrow> Generator \<Rightarrow> Generator" where
  "onSizeInput parsed g =
     generateQRDebounced None
       (g\<lparr>vanilla_options := (vanilla_options g)\<lparr>width := parsedWidth parsed\<rparr>\<rparr>)"

text \<open>
  The clock moves to \<open>T\<close>; a timer due by then fires on the way. The first argument bounds
  the number of firings.
\<close>

fun advanceGenerator :: "nat \<Rightarrow> Runtime \<Rightarrow> nat \<Rightarrow> Generator \<Rightarrow> Generator" where
  "advanceGenerator 0 rt T g = g"
| "advanceGenerator (Suc n) rt T g =
     (case debounceTimer g of
        None \<Rightarrow> g\<lparr>generatorClock := max (generatorClock g) T\<rparr>
      | Some timer \<Rightarrow>
          if timer_due timer \<le> T then
            advanceGenerator n rt T
              (debounceCallback rt (timer_url timer)
                 (g\<lparr>debounceTimer := None,
                    generatorClock := max (generatorClock g) (timer_due timer)\<rparr>))
          else g\<lparr>generatorClock := max (generatorClock g) T\<rparr>)"

subsection \<open>The React component of \<^verbatim>\<open>QRGenerator.tsx\<close>\<close>

text \<open>
  A pending timer of the component: when it is due, and the \<open>url\<close> and \<open>options\<close> of the
  render whose \<open>generateQRWithValidation\<close> its callback calls.
\<close>

record EffectTimer =
  effect_due :: nat
  effect_url :: string
  effect_options :: QROptions

record Component = AppState +
  displayQrUrl :: string
  urlTimer :: "EffectTimer option"
  colorDebounceTimer :: "EffectTimer option"
  componentClock :: nat
  regenerated :: "(string \<times> QROptions) list"

text \<open>
  The effects after a render. In \<^verbatim>\<open>QRGenerator.tsx\<close> \<open>validateUrl\<close> is a plain function of the
  component body, a new object at every render, and it is a dependency of the first two
  effects (directly, and through \<open>generateQRWithValidation\<close>, which also depends on
  \<open>options\<close>): after every render both effects clean up, which clears their pending timer,
  and run again. The first arms a 500 ms timer when the URL is valid, the second a 300 ms
  timer when the URL is valid and a QR code exists. The third effect shows a first QR code:
  \<open>updateQrDisplay\<close> sets \<open>displayQrUrl\<close> once the image has loaded, taken as immediate.
\<close>

definition runEffects :: "Runtime \<Rightarrow> Component \<Rightarrow> Component" where
  "runEffects rt c =
     (let c1 = c\<lparr>urlTimer :=
                   (if url c \<noteq> [] \<and> validateUrl rt (url c)
                    then Some \<lparr>effect_due = componentClock c + 500, effect_url = url c,
                                effect_options = options c\<rparr>
                    else None)\<rparr>;
          c2 = c1\<lparr>colorDebounceTimer :=
                   (if url c \<noteq> [] \<and> validateUrl rt (url c) \<and> qrDataUrl c \<noteq> []
                    then Some \<lparr>effect_due = componentClock c + 300, effect_url = url c,
                                effect_options = options c\<rparr>
                    else None)\<rparr>
      in if qrDataUrl c \<noteq> [] \<and> displayQrUrl c = [] then c2\<lparr>displayQrUrl := qrDataUrl c\<rparr>
         else c2)"

text \<open>
  \<open>generateQRWithValidation\<close> of the render with the given \<open>url\<close> and \<open>options\<close>: the call
  of \<open>QRCode.toDataURL\<close> (with the mask colours) is appended to \<open>regenerated\<close>; its result
  is stored with \<open>setQrDataUrl\<close> and \<open>updateQrDisplay\<close>, and the component renders again
  when that changes its state.
\<close>

definition generateQRWithValidation ::
  "Runtime \<Rightarrow> string \<Rightarrow> QROptions \<Rightarrow> Component \<Rightarrow> Component" where
  "generateQRWithValidation rt u opts c =
     (if u = [] \<or> \<not> validateUrl rt u then c
      else
        let sanitizedUrl = sanitizeUrl u;
            maskOptions = opts\<lparr>dark := ''#ffffff'', light := ''#00000000''\<rparr>;
            c' = c\<lparr>regenerated := regenerated c @ [(sanitizedUrl, opts)]\<rparr>
        in case QRCode_toDataURL rt sanitizedUrl maskOptions of
             None \<Rightarrow> c'
           | Some qrString \<Rightarrow>
               if qrString = qrDataUrl c' \<and> qrString = displayQrUrl c' then c'
               else runEffects rt (c'\<lparr>qrDataUrl := qrString, displayQrUrl := qrString\<rparr>))"

text \<open>
  The \<open>onChange\<close> listener of the size field:
  \<open>setOptions(prev => ({...prev, width: validation.parsedValue}))\<close>, a new \<open>options\<close>
  object and so a render.
\<close>

definition onSizeChange :: "Runtime \<Rightarrow> string \<Rightarrow> Component \<Rightarrow> Component" where
  "onSizeChange rt raw c =
     runEffects rt
       (c\<lparr>options :=
            (options c)\<lparr>width := parsedValue (validateNumericInput raw 128 1024 256)\<rparr>\<rparr>)"

text \<open>
  The clock moves to \<open>T\<close>; timers due by then fire on the way, the earlier first (of two
  due at the same time the 500 ms one was set earlier). The first argument bounds the
  number of firings.
\<close>

fun advanceComponent :: "nat \<Rightarrow> Runtime \<Rightarrow> nat \<Rightarrow> Component \<Rightarrow> Component" where
  "advanceComponent 0 rt T c = c"
| "advanceComponent (Suc n) rt T c =
     (let fireUrl = (\<lambda>t. advanceComponent n rt T
                      (generateQRWithValidation rt (effect_url t) (effect_options t)
                         (c\<lparr>urlTimer := None,
                            componentClock := max (componentClock c) (effect_due t)\<rparr>)));
          fireColor = (\<lambda>t. advanceComponent n rt T
                      (generateQRWithValidation rt (effect_url t) (effect_options t)
                         (c\<lparr>colorDebounceTimer := None,
                            componentClock := max (componentClock c) (effect_due t)\<rparr>)));
          idle = c\<lparr>componentClock := max (componentClock c) T\<rparr>
      in case (urlTimer c, colorDebounceTimer c) of
           (None, None) \<Rightarrow> idle
         | (Some t, None) \<Rightarrow> if effect_due t \<le> T then fireUrl t else idle
         | (None, Some t) \<Rightarrow> if effect_due t \<le> T then fireColor t else idle
         | (Some t1, Some t2) \<Rightarrow>
             if effect_due t1 \<le> effect_due t2 then
               (if effect_due t1 \<le> T then fireUrl t1 else idle)
             else (if effect_due t2 \<le> T then fireColor t2 else idle))"

text \<open>
  Sample runtime and states: every URL is valid, the preview image is a text made of the
  width; a settled component and a settled generator that show a QR code of width 256.
\<close>

definition sampleRuntime :: Runtime where
  "sampleRuntime =
     \<lparr>urlPattern_test = (\<lambda>s. True),
      URL_protocol = (\<lambda>s. Some ''https:''),
      QRCode_toDataURL = (\<lambda>text opts. Some (''data:image/png;base64,'' @ showInt (width opts))),
      QRCode_toCanvas_returns = (\<lambda>text opts. True)\<rparr>"

definition sampleComponent :: Component where
  "sampleComponent =
     \<lparr>url = ''example.com'', qrDataUrl = ''data:image/png;base64,256'', logo = None,
      options = sampleOptions, displayQrUrl = ''data:image/png;base64,256'',
      urlTimer = None, colorDebounceTimer = None, componentClock = 0, regenerated = []\<rparr>"

definition sampleGenerator :: Generator where
  "sampleGenerator =
     \<lparr>currentQRData = Some ''https://example.com'', currentLogo = None,
      vanilla_options = sampleOptions, urlInputValue = ''example.com'',
      debounceTimer = None, generatorClock = 0, generated = []\<rparr>"

subsection \<open>States of a burst\<close>

text \<open>
  The generator right after a size input at clock \<open>t\<close> that left the width \<open>w\<close>: its one
  timer is due 500 ms later.
\<close>

definition armedGenerator :: "Generator \<Rightarrow> nat \<Rightarrow> int \<Rightarrow> Generator" where
  "armedGenerator g t w =
     g\<lparr>vanilla_options := (vanilla_options g)\<lparr>width := w\<rparr>,
        debounceTimer := Some \<lparr>timer_due = t + 500, timer_url = None\<rparr>,
        generatorClock := t\<rparr>"

text \<open>
  The component right after a size change at clock \<open>t\<close> that left the options \<open>opts\<close>: both
  timers are pending, for 500 ms and for 300 ms later.
\<close>

definition armed :: "Component \<Rightarrow> nat \<Rightarrow> QROptions \<Rightarrow> Component" where
  "armed c t opts =
     c\<lparr>options := opts,
        urlTimer := Some \<lparr>effect_due = t + 500, effect_url = url c, effect_options = opts\<rparr>,
        colorDebounceTimer :=
          Some \<lparr>effect_due = t + 300, effect_url = url c, effect_options = opts\<rparr>,
        componentClock := t\<rparr>"

text \<open>
  A regeneration with the options \<open>opts\<close> leaves the component's state as it is: the encoder
  fails, or returns the image that is stored and displayed already.
\<close>

definition unchanged :: "Runtime \<Rightarrow> QROptions \<Rightarrow> Component \<Rightarrow> bool" where
  "unchanged rt opts c =
     (case QRCode_toDataURL rt (sanitizeUrl (url c))
             (opts\<lparr>dark := ''#ffffff'', light := ''#00000000''\<rparr>) of
        None \<Rightarrow> True
      | Some qrString \<Rightarrow> qrString = qrDataUrl c \<and> qrString = displayQrUrl c)"

section \<open>Properties of the contrast analyzer\<close>

subsection \<open>Channel extraction\<close>

lemma sint_low_byte: "sint ((w :: 32 word) AND 0xff) = sint w mod 256"
proof -
  have a: "sint (w AND 0xff) = uint (w AND 0xff)"
  proof -
    have le: "w AND 0xff \<le> 0xff" by (rule word_and_le1)
    then have u: "uint (w AND 0xff) \<le> 255" by (simp add: word_le_def)
    have nn: "0 \<le> uint (w AND 0xff)" by simp
    have lo: "- (2 ^ 31) \<le> uint (w AND 0xff)" by (rule order_trans [OF _ nn]) simp
    have hi: "uint (w AND 0xff) < 2 ^ 31" by (rule le_less_trans [OF u]) simp
    have "signed_take_bit 31 (uint (w AND 0xff)) = uint (w AND 0xff)"
      using lo hi by (rule signed_take_bit_int_eq_self)
    then show ?thesis by (simp add: sint_uint)
  qed
  have m: "(255 :: int) = mask 8" by (simp add: mask_eq_exp_minus_1)
  have b: "uint (w AND 0xff) = uint w mod 256"
    by (simp add: uint_and m flip: take_bit_eq_mask) (simp add: take_bit_eq_mod)
  have c: "uint w = sint w mod 2 ^ 32"
    by (simp add: uint_sint take_bit_eq_mod)
  have "uint w mod 256 = sint w mod 256"
    unfolding c by (rule mod_mod_cancel) simp
  with a b show ?thesis by simp
qed

lemma channel_of_shift:
  "sint (signed_drop_bit k (w :: 32 word) AND 0xff) = (sint w div 2 ^ k) mod 256"
  by (simp add: sint_low_byte sint_signed_drop_bit_eq drop_bit_eq_div)

lemma roundToDouble_small: "\<bar>n\<bar> < 2 ^ 53 \<Longrightarrow> roundToDouble n = Finite n"
  by (simp add: roundToDouble_def Let_def nat_less_iff)

lemma sint_toInt32_small: "0 \<le> n \<Longrightarrow> n < 2 ^ 31 \<Longrightarrow> sint (toInt32 (Finite n)) = n"
  by (simp add: toInt32_def sint_sbintrunc' signed_take_bit_int_eq_self)

lemma isHexDigit_digitVal: "isHexDigit c \<Longrightarrow> \<exists>d<16. digitVal c = Some d"
  by (auto simp: isHexDigit_def digitVal_def Let_def)

lemma isHexDigit_facts:
  assumes "isHexDigit c"
  shows "\<not> isWhiteSpace c" "c \<noteq> CHR ''+''" "c \<noteq> CHR ''-''" "c \<noteq> CHR ''x''" "c \<noteq> CHR ''X''"
    "isRadixDigit 16 c"
  using assms by (auto simp: isHexDigit_def isWhiteSpace_def isRadixDigit_def digitVal_def Let_def)

lemma parseInt_hexdigits:
  assumes "list_all isHexDigit ds" "ds \<noteq> []"
  shows "parseInt ds 16 = roundToDouble (int (digitsValue 16 0 ds))"
proof -
  obtain c cs where ds: "ds = c # cs" using assms(2) by (cases ds) auto
  have c: "isHexDigit c" and cs: "list_all isHexDigit cs" using assms(1) ds by auto
  have t: "trimStart ds = ds"
    using isHexDigit_facts(1) [OF c] by (simp add: trimStart_def ds)
  have nx: "\<not> startsWith ds ''0x''" "\<not> startsWith ds ''0X''"
  proof -
    show "\<not> startsWith ds ''0x''"
    proof (cases cs)
      case Nil then show ?thesis by (simp add: ds)
    next
      case (Cons d es)
      with cs have "isHexDigit d" by simp
      from isHexDigit_facts(4) [OF this] show ?thesis by (simp add: ds Cons)
    qed
    show "\<not> startsWith ds ''0X''"
    proof (cases cs)
      case Nil then show ?thesis by (simp add: ds)
    next
      case (Cons d es)
      with cs have "isHexDigit d" by simp
      from isHexDigit_facts(5) [OF this] show ?thesis by (simp add: ds Cons)
    qed
  qed
  have sg: "\<not> startsWith ds ''+''" "\<not> startsWith ds ''-''"
    using isHexDigit_facts(2,3) [OF c] by (simp_all add: ds)
  have "list_all (isRadixDigit 16) ds"
    using assms(1) by (induction ds) (auto intro: isHexDigit_facts(6))
  then have tw: "takeWhile (isRadixDigit 16) ds = ds"
    by (simp add: list_all_iff)
  show ?thesis
    using assms(2) by (simp add: parseInt_def Let_def t nx sg tw)
qed


lemma byte_split:
  fixes a c :: int
  assumes "0 \<le> c" "c < 256"
  shows "(a * 256 + c) div 256 = a" and "(a * 256 + c) mod 256 = c"
  using assms by simp_all

lemma six_digits_split:
  fixes d1 d2 d3 d4 d5 d6 :: nat
  assumes "d1 < 16" "d2 < 16" "d3 < 16" "d4 < 16" "d5 < 16" "d6 < 16"
  defines "n \<equiv> int (((((d1 * 16 + d2) * 16 + d3) * 16 + d4) * 16 + d5) * 16 + d6)"
  shows "n div 2 ^ 16 mod 256 = int (16 * d1 + d2)"
    and "n div 2 ^ 8 mod 256 = int (16 * d3 + d4)"
    and "n div 2 ^ 0 mod 256 = int (16 * d5 + d6)"
    and "0 \<le> n" and "n < 2 ^ 31"
proof -
  define A B C where "A = int (16 * d1 + d2)" and "B = int (16 * d3 + d4)" and "C = int (16 * d5 + d6)"
  have r: "0 \<le> A" "A < 256" "0 \<le> B" "B < 256" "0 \<le> C" "C < 256"
    using assms(1-6) by (simp_all add: A_def B_def C_def)
  have n: "n = (A * 256 + B) * 256 + C"
    by (simp add: n_def A_def B_def C_def algebra_simps)
  have m0: "n mod 256 = C" unfolding n by (rule byte_split(2) [OF r(5,6)])
  have d8: "n div 256 = A * 256 + B" unfolding n by (rule byte_split(1) [OF r(5,6)])
  have m8: "n div 256 mod 256 = B" unfolding d8 by (rule byte_split(2) [OF r(3,4)])
  have "n div 65536 = (n div 256) div 256"
    by (simp add: div_mult2_eq)
  also have "\<dots> = A" unfolding d8 by (rule byte_split(1) [OF r(3,4)])
  finally have d16: "n div 65536 = A" .
  show "n div 2 ^ 0 mod 256 = int (16 * d5 + d6)" using m0 by (simp add: C_def)
  show "n div 2 ^ 8 mod 256 = int (16 * d3 + d4)" using m8 by (simp add: B_def)
  show "n div 2 ^ 16 mod 256 = int (16 * d1 + d2)" using d16 r(1,2) by (simp add: A_def)
  show "0 \<le> n" by (simp add: n_def)
  show "n < 2 ^ 31" using r unfolding n by simp
qed

lemma hexChannels_six_digits:
  assumes "hexPattern_test hex" "length hex = 7"
  shows "Some (hexChannels hex) = spec_decodeHex hex"
proof -
  obtain h c1 c2 c3 c4 c5 c6 where hex: "hex = [h, c1, c2, c3, c4, c5, c6]"
    using assms(2) by (auto simp: length_Suc_conv eval_nat_numeral)
  have all: "list_all isHexDigit [c1, c2, c3, c4, c5, c6]"
    using assms(1) by (simp add: hex)
  obtain d1 d2 d3 d4 d5 d6 where d:
    "digitVal c1 = Some d1" "d1 < 16" "digitVal c2 = Some d2" "d2 < 16"
    "digitVal c3 = Some d3" "d3 < 16" "digitVal c4 = Some d4" "d4 < 16"
    "digitVal c5 = Some d5" "d5 < 16" "digitVal c6 = Some d6" "d6 < 16"
    using all by (auto dest!: isHexDigit_digitVal)
  let ?n = "int (((((d1 * 16 + d2) * 16 + d3) * 16 + d4) * 16 + d5) * 16 + d6)"
  note s = six_digits_split [OF d(2) d(4) d(6) d(8) d(10) d(12)]
  have "\<bar>?n\<bar> < 2 ^ 53" using s(4,5) by simp
  then have rd: "roundToDouble ?n = Finite ?n" by (rule roundToDouble_small)
  have dv: "int (digitsValue 16 0 [c1, c2, c3, c4, c5, c6]) = ?n"
    by (simp add: d)
  have ne: "[c1, c2, c3, c4, c5, c6] \<noteq> []" by simp
  have dr: "drop 1 hex = [c1, c2, c3, c4, c5, c6]" by (simp add: hex)
  have p: "parseInt (drop 1 hex) 16 = Finite ?n"
    by (simp only: dr parseInt_hexdigits [OF all ne] dv rd)
  have si: "sint (toInt32 (Finite ?n)) = ?n"
    by (rule sint_toInt32_small [OF s(4) s(5)])
  have "hexChannels hex = (int (16 * d1 + d2), int (16 * d3 + d4), int (16 * d5 + d6))"
    unfolding hexChannels_def Let_def p channel_of_shift si
    using s(1,2,3) by simp
  moreover have "spec_decodeHex hex = Some (int (16 * d1 + d2), int (16 * d3 + d4), int (16 * d5 + d6))"
    using assms(1) by (simp add: spec_decodeHex_def hex spec_hexPair_def d)
  ultimately show ?thesis by simp
qed

lemma calculateLuminance_six_digits:
  assumes "hexPattern_test hex" "length hex = 7"
  shows "spec_relativeLuminance hex = Some (calculateLuminance hex)"
proof -
  obtain r g b where ch: "hexChannels hex = (r, g, b)" by (cases "hexChannels hex") auto
  with hexChannels_six_digits [OF assms] have "spec_decodeHex hex = Some (r, g, b)" by simp
  then show ?thesis
    by (simp add: spec_relativeLuminance_def calculateLuminance_def ch linearize_def spec_linear_def Let_def)
qed


lemma hexChannels_range:
  "hexChannels hex = (r, g, b) \<Longrightarrow> 0 \<le> r \<and> r \<le> 255 \<and> 0 \<le> g \<and> g \<le> 255 \<and> 0 \<le> b \<and> b \<le> 255"
  by (auto simp: hexChannels_def Let_def sint_low_byte)

lemma linearize_nonneg: "0 \<le> c \<Longrightarrow> 0 \<le> linearize c"
  by (simp add: linearize_def Let_def)

lemma calculateLuminance_nonneg: "0 \<le> calculateLuminance hex"
proof -
  obtain r g b where ch: "hexChannels hex = (r, g, b)" by (cases "hexChannels hex") auto
  from hexChannels_range [OF ch] have "0 \<le> r \<and> 0 \<le> g \<and> 0 \<le> b" by simp
  then show ?thesis
    by (simp add: calculateLuminance_def ch linearize_nonneg)
qed

lemma hexChannels_fff: "hexChannels ''#fff'' = (0, 15, 255)"
proof -
  have p: "parseInt ''fff'' 16 = Finite 4095"
    by (simp add: parseInt_def trimStart_def isWhiteSpace_def isRadixDigit_def digitVal_def
          roundToDouble_small)
  show ?thesis by (simp add: hexChannels_def toInt32_def p)
qed

lemma calculateLuminance_fff: "calculateLuminance ''#fff'' < 1 / 10"
proof -
  have l15: "linearize 15 \<le> 1 / 50"
  proof -
    let ?x = "(15 / 255 + 0.055) / 1.055 :: real"
    have x: "0 \<le> ?x" "?x \<le> 1" by simp_all
    have "?x powr 2.4 \<le> ?x powr 2"
      by (rule powr_mono' [OF _ x]) simp
    also have "\<dots> = ?x ^ 2" by (simp add: powr_numeral)
    also have "\<dots> \<le> 1 / 50" by (simp add: power2_eq_square)
    finally show ?thesis by (simp add: linearize_def)
  qed
  have l255: "linearize 255 = 1" by (simp add: linearize_def)
  have l0: "linearize 0 = 0" by (simp add: linearize_def)
  have "calculateLuminance ''#fff'' = 0.7152 * linearize 15 + 0.0722"
    by (simp add: calculateLuminance_def hexChannels_fff l255 l0)
  with l15 show ?thesis by simp
qed

text \<open>
  C1. \<open>validateHexColor\<close> accepts the short form \<open>#RGB\<close>, but \<open>calculateLuminance\<close> parses
  the three digits as one number and shifts it as if there were six: \<open>#fff\<close> is read as the
  channels (0, 15, 255), not as white (255, 255, 255), and its luminance comes out below 0.1
  where the WCAG definition gives 1. (For six digits the two agree, lemma
  \<open>calculateLuminance_six_digits\<close>.)
\<close>

theorem calculateLuminance_short_hex_diverges:
  "isValid (validateHexColor ''#fff'') \<and> hexChannels ''#fff'' = (0, 15, 255)
   \<and> spec_decodeHex ''#fff'' = Some (255, 255, 255)
   \<and> calculateLuminance ''#fff'' < 1 / 10
   \<and> spec_relativeLuminance ''#fff'' = Some 1"
proof -
  have v: "isValid (validateHexColor ''#fff'')"
    by (simp add: validateHexColor_def isHexDigit_def)
  have s: "spec_decodeHex ''#fff'' = Some (255, 255, 255)"
    by (simp add: spec_decodeHex_def spec_hexPair_def digitVal_def isHexDigit_def)
  have sl: "spec_relativeLuminance ''#fff'' = Some 1"
    by (simp add: spec_relativeLuminance_def s spec_linear_def)
  from v hexChannels_fff s calculateLuminance_fff sl show ?thesis by simp
qed

subsection \<open>Contrast ratio\<close>

lemma validateColorContrast_valid:
  assumes "isValid (validateHexColor a)" "isValid (validateHexColor b)"
  shows "validateColorContrast a b =
     \<lparr>isValid = True, error = None,
      warning = (if (max (calculateLuminance a) (calculateLuminance b) + 0.05) /
                    (min (calculateLuminance a) (calculateLuminance b) + 0.05) < 3
                 then Some ''Low contrast may affect QR code scannability'' else None),
      contrastRatio = Some ((max (calculateLuminance a) (calculateLuminance b) + 0.05) /
                    (min (calculateLuminance a) (calculateLuminance b) + 0.05)),
      scannable = Some ((max (calculateLuminance a) (calculateLuminance b) + 0.05) /
                    (min (calculateLuminance a) (calculateLuminance b) + 0.05) \<ge> 3)\<rparr>"
  using assms by (simp add: validateColorContrast_def Let_def not_le)

lemma valid_black: "isValid (validateHexColor ''#000000'')"
  by (simp add: validateHexColor_def isHexDigit_def)

lemma valid_white: "isValid (validateHexColor ''#FFFFFF'')"
  by (simp add: validateHexColor_def isHexDigit_def)

lemma luminance_black: "calculateLuminance ''#000000'' = 0"
proof -
  have p: "parseInt ''000000'' 16 = Finite 0"
    by (simp add: parseInt_def trimStart_def isWhiteSpace_def isRadixDigit_def digitVal_def
          roundToDouble_small)
  have c: "hexChannels ''#000000'' = (0, 0, 0)"
    by (simp add: hexChannels_def toInt32_def p)
  show ?thesis by (simp add: calculateLuminance_def c linearize_def)
qed

lemma luminance_white: "calculateLuminance ''#FFFFFF'' = 1"
proof -
  have p: "parseInt ''FFFFFF'' 16 = Finite 16777215"
    by (simp add: parseInt_def trimStart_def isWhiteSpace_def isRadixDigit_def digitVal_def
          roundToDouble_small)
  have c: "hexChannels ''#FFFFFF'' = (255, 255, 255)"
    by (simp add: hexChannels_def toInt32_def p)
  show ?thesis by (simp add: calculateLuminance_def c linearize_def)
qed

text \<open>
  What the short-form decoding does to the analysis: black on white written \<open>#000\<close> on
  \<open>#fff\<close> is reported as not scannable.
\<close>

lemma short_hex_black_on_white_not_scannable:
  "scannable (validateColorContrast ''#000'' ''#fff'') = Some False"
proof -
  have v0: "isValid (validateHexColor ''#000'')" by (simp add: validateHexColor_def isHexDigit_def)
  have v1: "isValid (validateHexColor ''#fff'')" by (simp add: validateHexColor_def isHexDigit_def)
  have p: "parseInt ''000'' 16 = Finite 0"
    by (simp add: parseInt_def trimStart_def isWhiteSpace_def isRadixDigit_def digitVal_def
          roundToDouble_small)
  have c: "hexChannels ''#000'' = (0, 0, 0)"
    by (simp add: hexChannels_def toInt32_def p)
  have l0: "calculateLuminance ''#000'' = 0" by (simp add: calculateLuminance_def c linearize_def)
  have l1: "calculateLuminance ''#fff'' < 1 / 10" by (rule calculateLuminance_fff)
  have l1': "0 \<le> calculateLuminance ''#fff''" by (rule calculateLuminance_nonneg)
  show ?thesis
    using l1 l1' by (simp add: validateColorContrast_valid v0 v1 l0 max_absorb2 min_absorb1)
qed

text \<open>
  C5. For black on white \<open>validateColorContrast\<close> computes the contrast ratio 21 and reports
  the pair as scannable. (Arithmetic over the reals.)
\<close>

theorem contrast_black_white_is_21:
  "contrastRatio (validateColorContrast ''#000000'' ''#FFFFFF'') = Some 21
   \<and> scannable (validateColorContrast ''#000000'' ''#FFFFFF'') = Some True"
  by (simp add: validateColorContrast_valid valid_black valid_white luminance_black luminance_white)

theorem contrast_black_white_is_21_witness:
  "isValid (validateHexColor ''#000000'') \<and> isValid (validateHexColor ''#FFFFFF'')
   \<and> isValid (validateColorContrast ''#000000'' ''#FFFFFF'')
   \<and> contrastRatio (validateColorContrast ''#000000'' ''#FFFFFF'') = Some 21"
  using contrast_black_white_is_21 valid_black valid_white
  by (simp add: validateColorContrast_valid)

text \<open>
  C6. For valid hex colours \<open>a\<close> and \<open>b\<close> the contrast ratio that \<open>validateColorContrast\<close>
  returns is (max(L_a, L_b) + 0.05) / (min(L_a, L_b) + 0.05); it is the same for (a, b) and
  (b, a), and it is 1 for (a, a).
\<close>

theorem contrastRatio_symmetric_and_reflexive:
  assumes "isValid (validateHexColor a)" "isValid (validateHexColor b)"
  shows "contrastRatio (validateColorContrast a b) =
           Some ((max (calculateLuminance a) (calculateLuminance b) + 0.05) /
                 (min (calculateLuminance a) (calculateLuminance b) + 0.05))
       \<and> contrastRatio (validateColorContrast a b) = contrastRatio (validateColorContrast b a)
       \<and> contrastRatio (validateColorContrast a a) = Some 1"
proof -
  have pos: "calculateLuminance a + 0.05 \<noteq> 0"
    using calculateLuminance_nonneg [of a] by simp
  show ?thesis
    using pos by (simp add: validateColorContrast_valid assms max.commute min.commute)
qed

theorem contrastRatio_symmetric_and_reflexive_witness:
  "isValid (validateHexColor ''#000000'') \<and> isValid (validateHexColor ''#FFFFFF'')
   \<and> contrastRatio (validateColorContrast ''#000000'' ''#FFFFFF'') =
       contrastRatio (validateColorContrast ''#FFFFFF'' ''#000000'')
   \<and> contrastRatio (validateColorContrast ''#000000'' ''#000000'') = Some 1"
  using contrastRatio_symmetric_and_reflexive [OF valid_black valid_white] valid_black valid_white
  by blast

text \<open>
  C10. For valid hex colours \<open>validateColorContrast\<close> returns \<open>isValid = true\<close> and a
  contrast ratio that is at least 1; \<open>scannable\<close> is \<open>ratio \<ge> 3\<close>, and a warning is present
  exactly when \<open>scannable\<close> is false, that is when the ratio is below 3.
\<close>

theorem validateColorContrast_ratio_at_least_1:
  assumes "isValid (validateHexColor a)" "isValid (validateHexColor b)"
  shows "isValid (validateColorContrast a b)
       \<and> (\<exists>ratio. contrastRatio (validateColorContrast a b) = Some ratio \<and> 1 \<le> ratio
            \<and> scannable (validateColorContrast a b) = Some (3 \<le> ratio)
            \<and> (warning (validateColorContrast a b) \<noteq> None \<longleftrightarrow> ratio < 3))
       \<and> (warning (validateColorContrast a b) \<noteq> None \<longleftrightarrow>
            scannable (validateColorContrast a b) = Some False)"
proof -
  let ?lo = "min (calculateLuminance a) (calculateLuminance b)"
  let ?hi = "max (calculateLuminance a) (calculateLuminance b)"
  have lo: "0 < ?lo + 0.05"
    using calculateLuminance_nonneg [of a] calculateLuminance_nonneg [of b] by simp
  have "?lo + 0.05 \<le> ?hi + 0.05" by simp
  then have "1 \<le> (?hi + 0.05) / (?lo + 0.05)"
    using lo by (simp add: le_divide_eq)
  then show ?thesis
    by (simp add: validateColorContrast_valid assms not_le)
qed

theorem validateColorContrast_ratio_at_least_1_witness:
  "isValid (validateHexColor ''#000000'') \<and> isValid (validateHexColor ''#FFFFFF'')
   \<and> isValid (validateColorContrast ''#000000'' ''#FFFFFF'')
   \<and> (\<exists>ratio. contrastRatio (validateColorContrast ''#000000'' ''#FFFFFF'') = Some ratio
         \<and> 1 \<le> ratio)
   \<and> warning (validateColorContrast ''#000000'' ''#FFFFFF'') = None"
  using validateColorContrast_ratio_at_least_1 [OF valid_black valid_white] valid_black valid_white
  by (simp add: validateColorContrast_valid luminance_black luminance_white)

section \<open>Properties of the URL and numeric validators\<close>

lemma startsWith_append: "startsWith (p @ t) p"
  by (induction p) auto

lemma dropWhile_fixed: "xs = [] \<or> \<not> P (hd xs) \<Longrightarrow> dropWhile P xs = xs"
  by (cases xs) auto

lemma trim_fixed:
  assumes "t = [] \<or> (\<not> isWhiteSpace (hd t) \<and> \<not> isWhiteSpace (last t))"
  shows "trim t = t"
proof (cases "t = []")
  case True
  then show ?thesis by (simp add: trim_def)
next
  case False
  with assms have h: "\<not> isWhiteSpace (hd t)" and l: "\<not> isWhiteSpace (last t)" by auto
  have a: "dropWhile isWhiteSpace t = t" using h by (simp add: dropWhile_fixed)
  have "hd (rev t) = last t" using False by (simp add: hd_rev)
  then have b: "dropWhile isWhiteSpace (rev t) = rev t" using l by (simp add: dropWhile_fixed)
  show ?thesis by (simp add: trim_def a b)
qed

lemma trim_ends:
  "trim s = [] \<or> (\<not> isWhiteSpace (hd (trim s)) \<and> \<not> isWhiteSpace (last (trim s)))"
proof (cases "trim s = []")
  case True
  then show ?thesis by simp
next
  case False
  let ?P = isWhiteSpace
  let ?v = "dropWhile ?P s"
  let ?u = "dropWhile ?P (rev ?v)"
  have t: "trim s = rev ?u" by (simp add: trim_def)
  with False have u: "?u \<noteq> []" by simp
  then have "\<not> ?P (hd ?u)" by (rule hd_dropWhile)
  then have l: "\<not> ?P (last (trim s))" using u by (simp add: t last_rev)
  have "rev ?v = takeWhile ?P (rev ?v) @ ?u" by simp
  then have "?v = rev ?u @ rev (takeWhile ?P (rev ?v))"
    by (metis rev_append rev_rev_ident)
  then have v: "?v = trim s @ rev (takeWhile ?P (rev ?v))" by (simp add: t)
  have "?v \<noteq> []"
  proof
    assume "?v = []"
    then have "trim s = []" by (simp only: trim_def rev.simps dropWhile.simps)
    with False show False by simp
  qed
  then have "\<not> ?P (hd ?v)" by (rule hd_dropWhile)
  moreover have "hd ?v = hd (trim s)" using False by (subst v) simp
  ultimately show ?thesis using l by simp
qed

lemma trim_trim: "trim (trim s) = trim s"
  by (rule trim_fixed) (rule trim_ends)

lemma trim_strips:
  assumes a: "list_all isWhiteSpace a" and b: "list_all isWhiteSpace b"
    and u: "u = [] \<or> (\<not> isWhiteSpace (hd u) \<and> \<not> isWhiteSpace (last u))"
  shows "trim (a @ u @ b) = u"
proof (cases "u = []")
  case True
  have "\<forall>x\<in>set (a @ b). isWhiteSpace x"
    using a b by (auto simp: list_all_iff)
  then have "dropWhile isWhiteSpace (a @ b) = []"
    by (simp only: dropWhile_eq_Nil_conv)
  then have "trim (a @ b) = []"
    by (simp only: trim_def rev.simps dropWhile.simps)
  then show ?thesis using True by simp
next
  case False
  with u have h: "\<not> isWhiteSpace (hd u)" and l: "\<not> isWhiteSpace (last u)" by auto
  have "dropWhile isWhiteSpace (a @ u @ b) = dropWhile isWhiteSpace (u @ b)"
    using a by (intro dropWhile_append2) (simp add: list_all_iff)
  also have "\<dots> = u @ b"
    using False h by (intro dropWhile_fixed) simp
  finally have 1: "dropWhile isWhiteSpace (a @ u @ b) = u @ b" .
  have "dropWhile isWhiteSpace (rev b @ rev u) = dropWhile isWhiteSpace (rev u)"
    using b by (intro dropWhile_append2) (simp add: list_all_iff)
  also have "\<dots> = rev u"
    using False l by (intro dropWhile_fixed) (simp add: hd_rev)
  finally have 2: "dropWhile isWhiteSpace (rev (u @ b)) = rev u" by simp
  show ?thesis by (simp only: trim_def 1 2 rev_rev_ident)
qed

lemma startsWith_prefix: "startsWith s p = prefix p s"
  by (induction s p rule: startsWith.induct) auto

lemma isWhiteSpace_iff:
  "isWhiteSpace c \<longleftrightarrow>
     c \<in> {CHR 0x09, CHR 0x0A, CHR 0x0B, CHR 0x0C, CHR 0x0D, CHR 0x20, CHR 0xA0}"
proof -
  have "isWhiteSpace c \<longleftrightarrow>
          (of_char c :: nat) \<in> of_char ` {CHR 0x09, CHR 0x0A, CHR 0x0B, CHR 0x0C, CHR 0x0D, CHR 0x20, CHR 0xA0}"
    by (simp add: isWhiteSpace_def)
  also have "\<dots> \<longleftrightarrow> c \<in> {CHR 0x09, CHR 0x0A, CHR 0x0B, CHR 0x0C, CHR 0x0D, CHR 0x20, CHR 0xA0}"
    by (rule inj_image_mem_iff) (simp add: inj_on_def)
  finally show ?thesis .
qed

lemma sanitizeUrl_shape:
  "sanitizeUrl x =
     (if startsWith (trim x) ''http://'' \<or> startsWith (trim x) ''https://''
      then trim x else ''https://'' @ trim x)"
  by (simp add: sanitizeUrl_def Let_def)

lemma sanitizeUrl_ends:
  "sanitizeUrl x \<noteq> [] \<and> \<not> isWhiteSpace (hd (sanitizeUrl x))
   \<and> \<not> isWhiteSpace (last (sanitizeUrl x))
   \<and> (startsWith (sanitizeUrl x) ''http://'' \<or> startsWith (sanitizeUrl x) ''https://'')"
proof (cases "startsWith (trim x) ''http://'' \<or> startsWith (trim x) ''https://''")
  case True
  then have s: "sanitizeUrl x = trim x" by (simp add: sanitizeUrl_shape)
  from True have "trim x \<noteq> []" by auto
  with trim_ends [of x] True show ?thesis by (simp add: s)
next
  case False
  let ?y = "''https://'' @ trim x"
  have s: "sanitizeUrl x = ?y" using False by (simp add: sanitizeUrl_shape)
  have "\<not> isWhiteSpace (last ?y)"
    using trim_ends [of x] by (cases "trim x = []") (simp_all add: isWhiteSpace_def)
  moreover have "\<not> isWhiteSpace (hd ?y)" by (simp add: isWhiteSpace_def)
  moreover have "startsWith ?y ''https://''" by (rule startsWith_append)
  ultimately show ?thesis by (simp only: s) simp
qed

lemma sanitizeUrl_fixed:
  assumes "y \<noteq> []" "\<not> isWhiteSpace (hd y)" "\<not> isWhiteSpace (last y)"
    and "startsWith y ''http://'' \<or> startsWith y ''https://''"
  shows "sanitizeUrl y = y"
proof -
  have "trim y = y" using assms(2,3) by (intro trim_fixed) simp
  then show ?thesis using assms(4) by (auto simp add: sanitizeUrl_shape)
qed


text \<open>
  C7. \<open>sanitizeUrl\<close> is idempotent. It removes the white space at both ends (TAB, LF, VT,
  FF, CR, SP and NBSP among 8-bit characters) and nothing else: for an input made of white
  space, a core \<open>u\<close> that neither starts nor ends with white space, and white space again,
  the result is \<open>u\<close> itself when \<open>u\<close> starts with \<open>http://\<close> or \<open>https://\<close> (in lower
  case) and \<open>https://\<close> followed by \<open>u\<close> otherwise. A result is never empty, starts with
  one of the two schemes and has no white space at either end. So
  \<open>sanitizeUrl("example.com")\<close> is \<open>"https://example.com"\<close>, also with white space
  around the input, and white space inside the input stays.
\<close>

theorem sanitizeUrl_idempotent:
  "sanitizeUrl (sanitizeUrl x) = sanitizeUrl x
   \<and> sanitizeUrl x =
       (if startsWith (trim x) ''http://'' \<or> startsWith (trim x) ''https://''
        then trim x else ''https://'' @ trim x)
   \<and> (list_all isWhiteSpace a \<and> list_all isWhiteSpace b
        \<and> (u = [] \<or> (\<not> isWhiteSpace (hd u) \<and> \<not> isWhiteSpace (last u))) \<longrightarrow>
        trim (a @ u @ b) = u
        \<and> sanitizeUrl (a @ u @ b) =
            (if prefix ''http://'' u \<or> prefix ''https://'' u then u else ''https://'' @ u))
   \<and> (isWhiteSpace c \<longleftrightarrow>
        c \<in> {CHR 0x09, CHR 0x0A, CHR 0x0B, CHR 0x0C, CHR 0x0D, CHR 0x20, CHR 0xA0})
   \<and> sanitizeUrl x \<noteq> [] \<and> \<not> isWhiteSpace (hd (sanitizeUrl x))
   \<and> \<not> isWhiteSpace (last (sanitizeUrl x))
   \<and> (prefix ''http://'' (sanitizeUrl x) \<or> prefix ''https://'' (sanitizeUrl x))
   \<and> sanitizeUrl ''example.com'' = ''https://example.com''
   \<and> sanitizeUrl ([CHR 0x20, CHR 0x09] @ ''example.com'' @ [CHR 0x0D, CHR 0x0A, CHR 0xA0])
        = ''https://example.com''
   \<and> sanitizeUrl ''  http://example.com/a b  '' = ''http://example.com/a b''
   \<and> sanitizeUrl '' https://example.com'' = ''https://example.com''
   \<and> sanitizeUrl ''HTTP://example.com'' = ''https://HTTP://example.com''
   \<and> sanitizeUrl ''   '' = ''https://''"
proof -
  note e = sanitizeUrl_ends [of x]
  have idem: "sanitizeUrl (sanitizeUrl x) = sanitizeUrl x"
    using e by (intro sanitizeUrl_fixed) simp_all
  have strip: "trim (a @ u @ b) = u
        \<and> sanitizeUrl (a @ u @ b) =
            (if prefix ''http://'' u \<or> prefix ''https://'' u then u else ''https://'' @ u)"
    if "list_all isWhiteSpace a \<and> list_all isWhiteSpace b
        \<and> (u = [] \<or> (\<not> isWhiteSpace (hd u) \<and> \<not> isWhiteSpace (last u)))"
  proof -
    from that have t: "trim (a @ u @ b) = u" by (intro trim_strips) simp_all
    show ?thesis
      unfolding sanitizeUrl_shape t startsWith_prefix by simp
  qed
  have pre: "prefix ''http://'' (sanitizeUrl x) \<or> prefix ''https://'' (sanitizeUrl x)"
    using e by (simp only: startsWith_prefix)
  have ex1: "sanitizeUrl ''example.com'' = ''https://example.com''"
    by (simp add: sanitizeUrl_def trim_def isWhiteSpace_def)
  have ex2: "sanitizeUrl ([CHR 0x20, CHR 0x09] @ ''example.com'' @ [CHR 0x0D, CHR 0x0A, CHR 0xA0])
        = ''https://example.com''"
    by (simp add: sanitizeUrl_def trim_def isWhiteSpace_def)
  have ex3: "sanitizeUrl ''  http://example.com/a b  '' = ''http://example.com/a b''"
    by (simp add: sanitizeUrl_def trim_def isWhiteSpace_def)
  have ex4: "sanitizeUrl '' https://example.com'' = ''https://example.com''"
    by (simp add: sanitizeUrl_def trim_def isWhiteSpace_def)
  have ex5: "sanitizeUrl ''HTTP://example.com'' = ''https://HTTP://example.com''"
    by (simp add: sanitizeUrl_def trim_def isWhiteSpace_def)
  have ex6: "sanitizeUrl ''   '' = ''https://''"
    by (simp add: sanitizeUrl_def trim_def isWhiteSpace_def)
  from idem sanitizeUrl_shape [of x] strip isWhiteSpace_iff [of c] e pre ex1 ex2 ex3 ex4 ex5 ex6
  show ?thesis by blast
qed

theorem sanitizeUrl_idempotent_witness:
  "list_all isWhiteSpace [CHR 0x09, CHR 0x20] \<and> list_all isWhiteSpace [CHR 0x0A]
   \<and> \<not> isWhiteSpace (hd ''example.com'') \<and> \<not> isWhiteSpace (last ''example.com'')
   \<and> trim ([CHR 0x09, CHR 0x20] @ ''example.com'' @ [CHR 0x0A]) = ''example.com''
   \<and> sanitizeUrl ([CHR 0x09, CHR 0x20] @ ''example.com'' @ [CHR 0x0A]) = ''https://example.com''"
  using sanitizeUrl_idempotent
          [where a = "[CHR 0x09, CHR 0x20]" and u = "''example.com''" and b = "[CHR 0x0A]"]
  by (simp add: isWhiteSpace_def)


lemma bitLength_2_53_1: "bitLength 9007199254740993 = 54"
  by (simp add: bitLength.simps)

text \<open>
  Beyond 2^53 \<open>parseInt\<close> rounds: the digits \<open>9007199254740993\<close> (2^53 + 1) are read as
  2^53, which a range ending at 2^53 contains.
\<close>

lemma parseInt_rounds_to_double:
  "parseInt ''9007199254740993'' 10 = Finite 9007199254740992
   \<and> validateNumericInput ''9007199254740993'' 0 9007199254740992 2 =
       \<lparr>isValid = True, error = None, warning = None, parsedValue = 9007199254740992\<rparr>"
proof -
  have t: "trim ''9007199254740993'' \<noteq> []" by (simp add: trim_def isWhiteSpace_def)
  have r: "roundToDouble 9007199254740993 = Finite 9007199254740992"
    by (simp add: roundToDouble_def Let_def bitLength_2_53_1)
  have p: "parseInt ''9007199254740993'' 10 = Finite 9007199254740992"
    by (simp add: parseInt_def trimStart_def isWhiteSpace_def isRadixDigit_def digitVal_def r)
  show ?thesis using t by (simp add: validateNumericInput_def p)
qed






lemma showInt_0_10: "showInt 0 = ''0''" "showInt 10 = ''10''"
  by (simp_all add: showInt_def digitChar_def)

lemma validateNumericInput_at:
  assumes "trim v \<noteq> []" "parseInt v 10 = p"
  shows "validateNumericInput v minV maxV d =
     (case p of
        NaN \<Rightarrow>
          \<lparr>isValid = False, error = Some ''Must be a valid number'', warning = None,
           parsedValue = d\<rparr>
      | Finite n \<Rightarrow>
          if n < minV \<or> n > maxV then
            \<lparr>isValid = False,
             error = Some (''Value must be between '' @ showInt minV @ '' and '' @ showInt maxV),
             warning = None, parsedValue = max minV (min maxV n)\<rparr>
          else \<lparr>isValid = True, error = None, warning = None, parsedValue = n\<rparr>
      | PosInfinity \<Rightarrow>
          \<lparr>isValid = False,
           error = Some (''Value must be between '' @ showInt minV @ '' and '' @ showInt maxV),
           warning = None, parsedValue = max minV maxV\<rparr>
      | NegInfinity \<Rightarrow>
          \<lparr>isValid = False,
           error = Some (''Value must be between '' @ showInt minV @ '' and '' @ showInt maxV),
           warning = None, parsedValue = minV\<rparr>)"
proof -
  from assms(1) have "v \<noteq> []" by (auto simp: trim_def)
  with assms show ?thesis by (simp add: validateNumericInput_def)
qed



lemma digitsValue_nines:
  "digitsValue 10 acc (replicate k CHR ''9'') = (acc + 1) * 10 ^ k - 1"
proof (induction k arbitrary: acc)
  case 0
  then show ?case by simp
next
  case (Suc k)
  have "(acc * 10 + 9 + 1) * 10 ^ k = (acc + 1) * 10 ^ Suc k" by (simp add: algebra_simps)
  then show ?case by (simp add: Suc digitVal_def)
qed

lemma bitLength_nines: "bitLength (10 ^ 310 - 1) = 1030"
  by (simp add: bitLength.simps)

lemma roundToDouble_nines: "roundToDouble (10 ^ 310 - 1) = PosInfinity"
  by (simp add: roundToDouble_def Let_def bitLength_nines [simplified])

text \<open>
  Digits too many for a double are read as \<open>Infinity\<close>: 310 nines are outside the range
  0 to 10, and the parsed value is the upper bound.
\<close>

lemma parseInt_overflows:
  "parseInt (replicate 310 CHR ''9'') 10 = PosInfinity
   \<and> validateNumericInput (replicate 310 CHR ''9'') 0 10 2 =
       \<lparr>isValid = False, error = Some ''Value must be between 0 and 10'', warning = None,
        parsedValue = 10\<rparr>"
proof -
  define S where "S = replicate 310 CHR ''9''"
  have "(310 :: nat) = Suc 309" by simp
  then have e: "S = CHR ''9'' # replicate 309 CHR ''9''"
    unfolding S_def by (simp only: replicate.simps)
  have ts: "trimStart S = S" by (simp add: e trimStart_def isWhiteSpace_def)
  have sg: "\<not> startsWith S ''+''" "\<not> startsWith S ''-''" by (simp_all add: e)
  have Z: "takeWhile (isRadixDigit 10) S = S"
    by (simp add: S_def isRadixDigit_def digitVal_def)
  have ne: "S \<noteq> []" by (simp add: e)
  have "int (digitsValue 10 0 S) = 10 ^ 310 - 1"
    unfolding S_def digitsValue_nines by simp
  then have p: "parseInt S 10 = PosInfinity"
    by (simp add: parseInt_def Let_def ts sg Z ne roundToDouble_nines [simplified])
  have "last S = CHR ''9''" by (simp add: S_def)
  then have "trim S = S"
    using ne by (intro trim_fixed) (simp add: e isWhiteSpace_def)
  then have t: "trim S \<noteq> []" using ne by simp
  show ?thesis
    unfolding S_def [symmetric]
    by (simp add: validateNumericInput_at [OF t p] p showInt_0_10)
qed




section \<open>Properties of the upload validation\<close>

lemma of_char_toLowerCaseChar:
  "(of_char (toLowerCaseChar c) :: nat) =
     (let n = of_char c
      in if (65 \<le> n \<and> n \<le> 90) \<or> (192 \<le> n \<and> n \<le> 222 \<and> n \<noteq> 215) then n + 32 else n)"
  by (simp add: toLowerCaseChar_def Let_def)

lemma toLowerCaseChar_eq_dot: "toLowerCaseChar c = CHR ''.'' \<longleftrightarrow> c = CHR ''.''"
proof
  assume "toLowerCaseChar c = CHR ''.''"
  then have "(of_char (toLowerCaseChar c) :: nat) = 46" by simp
  then have "(of_char c :: nat) = of_char CHR ''.''"
    by (simp add: of_char_toLowerCaseChar Let_def split: if_splits)
  then show "c = CHR ''.''" by (simp only: of_char_eq_iff)
next
  assume "c = CHR ''.''"
  then show "toLowerCaseChar c = CHR ''.''" by (simp add: toLowerCaseChar_def)
qed

lemma lastIndexOf_append:
  assumes "c \<notin> set ys"
  shows "lastIndexOf (xs @ c # ys) c = int (length xs)"
proof -
  have "takeWhile (\<lambda>x. x \<noteq> c) (rev ys @ c # rev xs) = rev ys"
    using assms by (simp add: takeWhile_append)
  then show ?thesis by (simp add: lastIndexOf_def)
qed

lemma fileExtension_of_suffix:
  assumes name: "file_name file = base @ CHR ''.'' # e" and nodot: "CHR ''.'' \<notin> set e"
  shows "fileExtension file = CHR ''.'' # toLowerCase e"
proof -
  have "lastIndexOf (file_name file) CHR ''.'' = int (length base)"
    unfolding name using nodot by (rule lastIndexOf_append)
  then show ?thesis
    by (simp add: fileExtension_def substring_def toLowerCase_def name toLowerCaseChar_eq_dot)
qed

lemma validateFileUpload_enterprise_extension:
  assumes "\<not> List.member allowedExtensions (fileExtension file)"
  shows "\<not> isValid (validateFileUpload_enterprise file)"
  using assms by (simp add: validateFileUpload_enterprise_def Let_def)

lemma validateFileUpload_enterprise_rejects_exe:
  assumes "file_name file = base @ ext" and "toLowerCase ext = ''.exe''"
  shows "\<not> isValid (validateFileUpload_enterprise file)"
proof -
  from assms(2) obtain d e where ext: "ext = d # e" and d: "toLowerCaseChar d = CHR ''.''"
    and e: "toLowerCase e = ''exe''"
    by (cases ext) (auto simp: toLowerCase_def)
  from d have d': "d = CHR ''.''" by (simp add: toLowerCaseChar_eq_dot)
  have nodot: "CHR ''.'' \<notin> set e"
  proof
    assume "CHR ''.'' \<in> set e"
    then have "toLowerCaseChar CHR ''.'' \<in> set (toLowerCase e)"
      unfolding toLowerCase_def by (simp only: set_map) (rule imageI)
    then show False by (simp add: e toLowerCaseChar_eq_dot [THEN iffD2])
  qed
  have "file_name file = base @ CHR ''.'' # e" using assms(1) by (simp add: ext d')
  from fileExtension_of_suffix [OF this nodot]
  have "fileExtension file = ''.exe''" by (simp add: e)
  then have "\<not> List.member allowedExtensions (fileExtension file)"
    by (simp add: allowedExtensions_def)
  then show ?thesis by (rule validateFileUpload_enterprise_extension)
qed


text \<open>
  C3. The baseline \<open>validateFileUpload\<close> and \<open>processLogoFile\<close> of \<^verbatim>\<open>script.js\<close> look at
  the size and the declared MIME type only: a file named \<open>malware.exe\<close> that declares
  \<open>image/png\<close> passes both, although its extension \<open>.exe\<close> is not an allowed one. (The
  enterprise component rejects it, lemma \<open>validateFileUpload_enterprise_rejects_exe\<close>.)
\<close>

theorem validateFileUpload_accepts_exe:
  "isValid (validateFileUpload
      \<lparr>file_name = ''malware.exe'', file_size = 1000, file_type = ''image/png''\<rparr>)
   \<and> processLogoFile \<lparr>file_name = ''malware.exe'', file_size = 1000, file_type = ''image/png''\<rparr>
       = Inr (FileBytes
            \<lparr>file_name = ''malware.exe'', file_size = 1000, file_type = ''image/png''\<rparr>)
   \<and> fileExtension \<lparr>file_name = ''malware.exe'', file_size = 1000, file_type = ''image/png''\<rparr>
       = ''.exe''
   \<and> \<not> List.member allowedExtensions ''.exe''"
proof -
  let ?f = "\<lparr>file_name = ''malware.exe'', file_size = 1000, file_type = ''image/png''\<rparr>"
  have a: "isValid (validateFileUpload ?f)"
    by (simp add: validateFileUpload_def)
  have b: "processLogoFile ?f = Inr (FileBytes ?f)"
    by (simp add: processLogoFile_def)
  have "file_name ?f = ''malware'' @ CHR ''.'' # ''exe''" by simp
  from fileExtension_of_suffix [OF this]
  have c: "fileExtension ?f = ''.exe''"
    by (simp add: toLowerCase_def toLowerCaseChar_def)
  have d: "\<not> List.member allowedExtensions ''.exe''"
    by (simp add: allowedExtensions_def)
  from a b c d show ?thesis by simp
qed


section \<open>Properties of the logo processor\<close>

lemma Math_round_near: "\<bar>real_of_int (Math_round x) - x\<bar> \<le> 1 / 2"
  unfolding Math_round_def by linarith

lemma Math_round_mono: "x \<le> y \<Longrightarrow> Math_round x \<le> Math_round y"
  unfolding Math_round_def by (simp add: floor_mono)

lemma Math_round_of_int: "Math_round (real_of_int k) = k"
  unfolding Math_round_def by linarith

lemma Math_round_of_nat: "Math_round (real n) = int n"
  unfolding Math_round_def by linarith

lemma optimizedSize_small:
  "w \<le> 512 \<Longrightarrow> h \<le> 512 \<Longrightarrow> optimizedSize w h = (w, h)"
  by (simp add: optimizedSize_def)

lemma optimizedSize_large:
  assumes "0 < w" "0 < h" "512 < w \<or> 512 < h"
  shows "optimizedSize w h =
           (nat (Math_round (real w * (512 / real (max w h)))),
            nat (Math_round (real h * (512 / real (max w h)))))"
proof -
  have "min (512 / real w) (512 / real h) = 512 / real (max w h)"
  proof (cases "w \<le> h")
    case True
    then have "512 / real h \<le> 512 / real w"
      using assms(1) by (intro divide_left_mono) simp_all
    then show ?thesis using True by (simp add: min_absorb2 max_absorb2)
  next
    case False
    then have "512 / real w \<le> 512 / real h"
      using assms(2) by (intro divide_left_mono) simp_all
    then show ?thesis using False by (simp add: min_absorb1 max_absorb1)
  qed
  then show ?thesis
    using assms by (simp add: optimizedSize_def Let_def)
qed

lemma scaled_side:
  fixes a m :: nat
  assumes "0 < a" "a \<le> m" "512 < m"
  defines "a' \<equiv> nat (Math_round (real a * (512 / real m)))"
  shows "a' \<le> 512" and "a' \<le> a" and "\<bar>real a' - real a * (512 / real m)\<bar> \<le> 1 / 2"
    and "a = m \<Longrightarrow> a' = 512"
proof -
  let ?x = "real a * (512 / real m)"
  have m: "0 < real m" using assms by simp
  have x0: "0 \<le> ?x" by simp
  have "?x = 512 * (real a / real m)" by simp
  also have "\<dots> \<le> 512 * 1"
    using assms(2) m by (intro mult_left_mono) simp_all
  finally have x512: "?x \<le> 512" by simp
  have "512 / real m < 1" using assms(3) by simp
  then have "?x \<le> real a * 1" by (intro mult_left_mono) simp_all
  then have xa: "?x \<le> real a" by simp
  have r0: "0 \<le> Math_round ?x"
    using Math_round_mono [OF x0] Math_round_of_int [of 0] by simp
  have "Math_round ?x \<le> Math_round (real_of_int 512)"
    by (rule Math_round_mono) (use x512 in simp)
  then have r512: "Math_round ?x \<le> 512" by (simp only: Math_round_of_int)
  have "Math_round ?x \<le> Math_round (real a)"
    by (rule Math_round_mono) (rule xa)
  then have ra: "Math_round ?x \<le> int a" by (simp only: Math_round_of_nat)
  show "a' \<le> 512" using r512 by (simp add: a'_def)
  show "a' \<le> a" using ra by (simp add: a'_def)
  have "real a' = real_of_int (Math_round ?x)" using r0 by (simp add: a'_def)
  then show "\<bar>real a' - ?x\<bar> \<le> 1 / 2" using Math_round_near [of ?x] by simp
  show "a' = 512" if "a = m"
  proof -
    have "?x = real_of_int 512" using that m by simp
    then have "Math_round ?x = 512" by (simp only: Math_round_of_int)
    then show ?thesis by (simp add: a'_def)
  qed
qed


lemma optimizedSize_fits:
  assumes "0 < w" "0 < h" and os: "optimizedSize w h = (w', h')"
  shows "w' \<le> 512 \<and> h' \<le> 512 \<and> w' \<le> w \<and> h' \<le> h
       \<and> \<bar>real w' - real w * spec_fitScale w h\<bar> \<le> 1 / 2
       \<and> \<bar>real h' - real h * spec_fitScale w h\<bar> \<le> 1 / 2
       \<and> (512 < max w h \<longrightarrow> max w' h' = 512)
       \<and> (max w h \<le> 512 \<longrightarrow> w' = w \<and> h' = h)"
proof (cases "512 < w \<or> 512 < h")
  case False
  then have "optimizedSize w h = (w, h)" by (simp add: optimizedSize_small)
  with os have eq: "w' = w" "h' = h" by simp_all
  have mx: "max w h \<le> 512" using False by simp
  have "512 / real (max w h) \<ge> 1" using mx assms(1,2) by (simp add: le_divide_eq)
  then have "spec_fitScale w h = 1" by (simp add: spec_fitScale_def)
  moreover have "\<not> 512 < max w h" using mx by linarith
  moreover have "w \<le> 512" "h \<le> 512" using False by simp_all
  ultimately show ?thesis using eq by simp
next
  case True
  let ?m = "max w h"
  have m: "512 < ?m" using True by auto
  from optimizedSize_large [OF assms(1,2) True] os
  have w': "w' = nat (Math_round (real w * (512 / real ?m)))"
    and h': "h' = nat (Math_round (real h * (512 / real ?m)))" by simp_all
  have "512 / real ?m \<le> 1" using m by simp
  then have sc: "spec_fitScale w h = 512 / real ?m" by (simp add: spec_fitScale_def)
  note sw = scaled_side [OF assms(1) max.cobounded1 m, folded w']
  note sh = scaled_side [OF assms(2) max.cobounded2 m, folded h']
  have "max w' h' = 512"
  proof (cases "w \<le> h")
    case True
    then have "h = ?m" by simp
    then have "h' = 512" by (rule sh(4))
    with sw(1) show ?thesis by simp
  next
    case False
    then have "w = ?m" by simp
    then have "w' = 512" by (rule sw(4))
    with sh(1) show ?thesis by simp
  qed
  moreover have "\<not> max w h \<le> 512" using m by linarith
  ultimately show ?thesis using sw(1,2,3) sh(1,2,3) m by (simp only: sc) simp
qed


lemma handleLogoUpload_enterprise_Inr:
  assumes "handleLogoUpload_enterprise browser file = Inr asset"
    and "decodeImage browser file = Some (w, h)"
  shows "32 \<le> w \<and> w \<le> 4096 \<and> 32 \<le> h \<and> h \<le> 4096
       \<and> isValid (validateFileUpload_enterprise file) \<and> canvas2d browser
       \<and> drawError browser file = None
       \<and> (\<exists>format quality.
             asset = CanvasData (fst (optimizedSize w h)) (snd (optimizedSize w h)) format quality)"
  using assms
  by (auto simp: handleLogoUpload_enterprise_def optimizeImage_def Let_def
           split: if_splits sum.splits prod.splits option.splits)

lemma logoPng_valid_enterprise: "isValid (validateFileUpload_enterprise logoPng)"
proof -
  have "file_name logoPng = ''logo'' @ CHR ''.'' # ''png''" by (simp add: logoPng_def)
  from fileExtension_of_suffix [OF this]
  have ext: "fileExtension logoPng = ''.png''"
    by (simp add: toLowerCase_def toLowerCaseChar_def)
  have c: "map canonicalize ''logo.png'' = ''LOGO.PNG''"
    by (simp add: canonicalize_def char_of_def bit_iff_odd drop_bit_eq_div)
  have d1: "\<not> list_ex unsafeChar ''logo.png''" by (simp add: unsafeChar_def)
  have d2: "\<not> onlyDots ''logo.png''" by (simp add: onlyDots_def)
  have d3: "\<not> reservedName ''logo.png''" by (simp add: reservedName_def c del: map_eq_Cons_conv list.map)
  have d4: "\<not> executableExtension ''logo.png''"
    by (simp add: executableExtension_def endsWith_def c del: list.map)
  have d: "\<not> list_ex (\<lambda>pattern. pattern (file_name logoPng)) dangerousPatterns"
    using d1 d2 d3 d4 by (simp add: dangerousPatterns_def logoPng_def)
  show ?thesis
    using d by (simp add: validateFileUpload_enterprise_def ext allowedExtensions_def)
                (simp add: logoPng_def)
qed

lemma logoPng_includes: "includes_str ''image/png'' ''png''"
  by (simp add: includes_str_def upt_conv_Cons)

lemma upload_4096_enterprise:
  "handleLogoUpload_enterprise browser4096 logoPng = Inr (CanvasData 512 512 ''image/png'' 0.95)"
proof -
  have os: "optimizedSize 4096 4096 = (512, 512)"
    by (simp add: optimizedSize_def Math_round_def)
  show ?thesis
    using logoPng_valid_enterprise
    by (simp add: handleLogoUpload_enterprise_def optimizeImage_def browser4096_def os)
       (simp add: logoPng_def logoPng_includes)
qed

lemma upload_1000_enterprise:
  "handleLogoUpload_enterprise browser1000 logoPng = Inr (CanvasData 512 512 ''image/png'' 0.95)"
proof -
  have os: "optimizedSize 1000 1000 = (512, 512)"
    by (simp add: optimizedSize_def Math_round_def)
  show ?thesis
    using logoPng_valid_enterprise
    by (simp add: handleLogoUpload_enterprise_def optimizeImage_def browser1000_def os)
       (simp add: logoPng_def logoPng_includes)
qed

text \<open>
  The enterprise component is the one that downscales. Every upload that its
  \<open>handleLogoUpload\<close> accepts has passed its \<open>validateFileUpload\<close> and the 32 to 4096 pixel
  check, and the logo is a canvas that fits 512 \<times> 512, is no larger than the image on either
  side, has each side within half a pixel of the proportionally scaled size, has its longer
  side at exactly 512 when the image was larger than that, and has the image's own size
  otherwise. Every valid file whose image decodes with sides between 32 and 4096 is accepted
  when a canvas is available and drawing does not throw.
\<close>

lemma enterprise_upload_downscales:
  "(\<forall>asset w h.
      handleLogoUpload_enterprise browser file = Inr asset
      \<and> decodeImage browser file = Some (w, h) \<longrightarrow>
      isValid (validateFileUpload_enterprise file)
      \<and> 32 \<le> w \<and> w \<le> 4096 \<and> 32 \<le> h \<and> h \<le> 4096
      \<and> (\<exists>w' h' format quality.
            asset = CanvasData w' h' format quality
            \<and> w' \<le> 512 \<and> h' \<le> 512 \<and> w' \<le> w \<and> h' \<le> h
            \<and> \<bar>real w' - real w * spec_fitScale w h\<bar> \<le> 1 / 2
            \<and> \<bar>real h' - real h * spec_fitScale w h\<bar> \<le> 1 / 2
            \<and> (512 < max w h \<longrightarrow> max w' h' = 512)
            \<and> (max w h \<le> 512 \<longrightarrow> w' = w \<and> h' = h)))
   \<and> (\<forall>w h.
        isValid (validateFileUpload_enterprise file) \<and> canvas2d browser
        \<and> drawError browser file = None
        \<and> decodeImage browser file = Some (w, h)
        \<and> 32 \<le> w \<and> w \<le> 4096 \<and> 32 \<le> h \<and> h \<le> 4096 \<longrightarrow>
        (\<exists>asset. handleLogoUpload_enterprise browser file = Inr asset))"
proof (intro conjI allI impI)
  fix asset w h
  assume a: "handleLogoUpload_enterprise browser file = Inr asset
      \<and> decodeImage browser file = Some (w, h)"
  note r = handleLogoUpload_enterprise_Inr [OF conjunct1 [OF a] conjunct2 [OF a]]
  from r show "isValid (validateFileUpload_enterprise file)" by simp
  from r show "32 \<le> w" "w \<le> 4096" "32 \<le> h" "h \<le> 4096" by simp_all
  from r obtain format quality where
    asset: "asset = CanvasData (fst (optimizedSize w h)) (snd (optimizedSize w h)) format quality"
    by blast
  have pos: "0 < w" "0 < h" using r by simp_all
  have "optimizedSize w h = (fst (optimizedSize w h), snd (optimizedSize w h))" by simp
  from optimizedSize_fits [OF pos this] asset
  show "\<exists>w' h' format quality.
            asset = CanvasData w' h' format quality
            \<and> w' \<le> 512 \<and> h' \<le> 512 \<and> w' \<le> w \<and> h' \<le> h
            \<and> \<bar>real w' - real w * spec_fitScale w h\<bar> \<le> 1 / 2
            \<and> \<bar>real h' - real h * spec_fitScale w h\<bar> \<le> 1 / 2
            \<and> (512 < max w h \<longrightarrow> max w' h' = 512)
            \<and> (max w h \<le> 512 \<longrightarrow> w' = w \<and> h' = h)"
    by blast
next
  fix w h
  assume "isValid (validateFileUpload_enterprise file) \<and> canvas2d browser
        \<and> drawError browser file = None
        \<and> decodeImage browser file = Some (w, h)
        \<and> 32 \<le> w \<and> w \<le> 4096 \<and> 32 \<le> h \<and> h \<le> 4096"
  then show "\<exists>asset. handleLogoUpload_enterprise browser file = Inr asset"
    by (simp add: handleLogoUpload_enterprise_def optimizeImage_def Let_def split: prod.splits)
qed








section \<open>Properties of the SVG export\<close>

lemma sublist_concat: "x \<in> set xss \<Longrightarrow> sublist x (concat xss)"
proof -
  assume "x \<in> set xss"
  then obtain as bs where "xss = as @ x # bs" by (auto dest: split_list)
  then have "concat xss = concat as @ x @ concat bs" by simp
  then show ?thesis by (simp only: sublist_appendI)
qed

lemma svgWrapper_declares:
  "sublist (svgSizeAttributes opts) (svgWrapper opts u d)"
  "sublist (svgViewBoxAttribute opts) (svgWrapper opts u d)"
  "sublist (svgImageElement opts d) (svgWrapper opts u d)"
  unfolding svgWrapper_def by (rule sublist_concat, simp)+

lemma addLogoToCanvas_Inr:
  assumes "addLogoToCanvas p lg canvas = Inr svgCanvas"
  shows "canvas_width svgCanvas = canvas_width canvas
       \<and> canvas_height svgCanvas = canvas_height canvas
       \<and> prefix (drawn canvas) (drawn svgCanvas)
       \<and> (truthy lg \<and> imageLoads p (the lg) \<longrightarrow>
            (\<exists>cx cy r x y s.
               drawn svgCanvas =
                 drawn canvas @ [Circle cx cy r ''#ffffff'', Image (the lg) x y s s]))"
proof (cases "truthy lg \<and> imageLoads p (the lg)")
  case False
  with assms show ?thesis
    by (auto simp: addLogoToCanvas_def Let_def split: if_splits)
next
  case True
  with assms have c: "context2d p" by (auto simp: addLogoToCanvas_def split: if_splits)
  from assms True c show ?thesis
    unfolding addLogoToCanvas_def Let_def by (simp only: if_True if_False not_True_eq_False simp_thms) force
qed

lemma downloadQR_svg_enterprise_with_logo:
  assumes lg: "truthy (logo st)" and d: "downloadQR_svg_enterprise p st = Some (Inr file)"
  shows "\<exists>w h svgCanvas.
           QRCode_toCanvas p (sanitizeUrl (url st)) (options st) = Some (w, h)
           \<and> addLogoToCanvas p (logo st)
                 \<lparr>canvas_width = w, canvas_height = h,
                  drawn = [QRModules (sanitizeUrl (url st)) (options st)]\<rparr> = Inr svgCanvas
           \<and> content file = svgWrapper (options st) (url st) (canvas_toDataURL p svgCanvas)
           \<and> fileName file = ''custqr-code.svg''"
  using assms
  by (auto simp: downloadQR_svg_enterprise_def generateDownloadQR_svg_def Let_def
           split: if_splits option.splits sum.splits prod.splits)


lemma enterprise_svg_export_is_raster_wrapper:
  assumes lg: "truthy (logo st)" and d: "downloadQR_svg_enterprise p st = Some (Inr file)"
  shows "\<exists>svgCanvas.
           content file = svgWrapper (options st) (url st) (canvas_toDataURL p svgCanvas)
           \<and> prefix [QRModules (sanitizeUrl (url st)) (options st)] (drawn svgCanvas)
           \<and> (imageLoads p (the (logo st)) \<longrightarrow>
                (\<exists>cx cy r x y s.
                   drawn svgCanvas =
                     [QRModules (sanitizeUrl (url st)) (options st),
                      Circle cx cy r ''#ffffff'', Image (the (logo st)) x y s s]))
           \<and> sublist (svgSizeAttributes (options st)) (content file)
           \<and> sublist (svgViewBoxAttribute (options st)) (content file)
           \<and> sublist (svgImageElement (options st) (canvas_toDataURL p svgCanvas))
                 (content file)"
proof -
  from downloadQR_svg_enterprise_with_logo [OF lg d] obtain w h svgCanvas where
    a: "addLogoToCanvas p (logo st)
          \<lparr>canvas_width = w, canvas_height = h,
           drawn = [QRModules (sanitizeUrl (url st)) (options st)]\<rparr> = Inr svgCanvas"
    and c: "content file = svgWrapper (options st) (url st) (canvas_toDataURL p svgCanvas)"
    by blast
  from addLogoToCanvas_Inr [OF a] lg
  have "prefix [QRModules (sanitizeUrl (url st)) (options st)] (drawn svgCanvas)"
    and "imageLoads p (the (logo st)) \<longrightarrow>
           (\<exists>cx cy r x y s.
              drawn svgCanvas =
                [QRModules (sanitizeUrl (url st)) (options st),
                 Circle cx cy r ''#ffffff'', Image (the (logo st)) x y s s])"
    by simp_all
  with c show ?thesis
    by (intro exI [of _ svgCanvas]) (simp add: svgWrapper_declares)
qed

text \<open>
  C4. In the baseline component and in \<^verbatim>\<open>script.js\<close> the SVG export does not look at the
  logo: with or without one the download is exactly what \<open>QRCode.toString\<close> returns for the
  sanitized URL and the options, so a logo that the preview (and the PNG and PDF exports)
  show is missing from the SVG file. (The enterprise component wraps the raster composite,
  lemma \<open>enterprise_svg_export_is_raster_wrapper\<close>.)
\<close>

theorem baseline_svg_export_ignores_logo:
  "downloadQR_svg p (st\<lparr>logo := lg\<rparr>) = downloadQR_svg p st
   \<and> downloadQR_svg_vanilla p (vst\<lparr>currentLogo := lg\<rparr>) = downloadQR_svg_vanilla p vst
   \<and> (\<forall>svgString.
        qrDataUrl st \<noteq> []
        \<and> QRCode_toString p (sanitizeUrl (url st)) (options st) = Some svgString \<longrightarrow>
        downloadQR_svg p st =
          Some (Inr \<lparr>fileName = ''custqr-code.svg'', mimeType = ''image/svg+xml'',
                     content = svgString\<rparr>))
   \<and> (\<forall>svgString.
        truthy (currentQRData vst)
        \<and> QRCode_toString p (the (currentQRData vst)) (vanilla_options vst) = Some svgString \<longrightarrow>
        downloadQR_svg_vanilla p vst =
          Some (Inr \<lparr>fileName = ''custqr-code.svg'', mimeType = ''image/svg+xml'',
                     content = svgString\<rparr>))"
  by (simp add: downloadQR_svg_def downloadQR_svg_vanilla_def)

theorem baseline_svg_export_ignores_logo_witness:
  "truthy (logo sampleState) \<and> qrDataUrl sampleState \<noteq> []
   \<and> QRCode_toString samplePlatform (sanitizeUrl (url sampleState)) (options sampleState)
       = Some ''<svg>https://example.com</svg>''
   \<and> downloadQR_svg samplePlatform sampleState =
        Some (Inr \<lparr>fileName = ''custqr-code.svg'', mimeType = ''image/svg+xml'',
                   content = ''<svg>https://example.com</svg>''\<rparr>)"
proof -
  have s: "sanitizeUrl ''example.com'' = ''https://example.com''"
    by (simp add: sanitizeUrl_def trim_def isWhiteSpace_def)
  have a: "truthy (logo sampleState)" by (simp add: sampleState_def truthy_def)
  have b: "qrDataUrl sampleState \<noteq> []" by (simp add: sampleState_def)
  have c: "QRCode_toString samplePlatform (sanitizeUrl (url sampleState)) (options sampleState)
       = Some ''<svg>https://example.com</svg>''"
    by (simp add: sampleState_def samplePlatform_def s)
  from baseline_svg_export_ignores_logo [where p = samplePlatform and st = sampleState] b c
  have "downloadQR_svg samplePlatform sampleState =
        Some (Inr \<lparr>fileName = ''custqr-code.svg'', mimeType = ''image/svg+xml'',
                   content = ''<svg>https://example.com</svg>''\<rparr>)"
    by blast
  with a b c show ?thesis by blast
qed



section \<open>Properties of the debounced regeneration\<close>

subsection \<open>\<^verbatim>\<open>script.js\<close>: one timer, one regeneration\<close>

lemma validateUrl_nonempty: "validateUrl rt u \<Longrightarrow> u \<noteq> []"
  by (auto simp: validateUrl_def)

declare advanceGenerator.simps [simp del]

lemma advanceGenerator_idle:
  assumes "debounceTimer g = None"
  shows "advanceGenerator (Suc n) rt T g = g\<lparr>generatorClock := max (generatorClock g) T\<rparr>"
  using assms by (simp add: advanceGenerator.simps)

lemma advanceGenerator_wait:
  assumes "debounceTimer g = Some timer" "T < timer_due timer"
  shows "advanceGenerator (Suc n) rt T g = g\<lparr>generatorClock := max (generatorClock g) T\<rparr>"
  using assms by (simp add: advanceGenerator.simps)

lemma advanceGenerator_fire:
  assumes "debounceTimer g = Some timer" "timer_due timer \<le> T"
  shows "advanceGenerator (Suc n) rt T g =
           advanceGenerator n rt T
             (debounceCallback rt (timer_url timer)
                (g\<lparr>debounceTimer := None,
                   generatorClock := max (generatorClock g) (timer_due timer)\<rparr>))"
  using assms by (simp add: advanceGenerator.simps)

lemma onSizeInput_first:
  assumes "debounceTimer g = None" "generatorClock g \<le> t"
  shows "onSizeInput parsed (advanceGenerator (Suc k) rt t g) = armedGenerator g t (parsedWidth parsed)"
  using assms
  by (simp add: advanceGenerator_idle onSizeInput_def generateQRDebounced_def armedGenerator_def
        max_absorb2)

lemma onSizeInput_next:
  assumes "t0 \<le> t" "t < t0 + 500"
  shows "onSizeInput parsed (advanceGenerator (Suc k) rt t (armedGenerator g t0 w)) =
           armedGenerator g t (parsedWidth parsed)"
proof -
  have "advanceGenerator (Suc k) rt t (armedGenerator g t0 w) =
          (armedGenerator g t0 w)\<lparr>generatorClock := t\<rparr>"
    using assms
    by (subst advanceGenerator_wait [where timer = "\<lparr>timer_due = t0 + 500, timer_url = None\<rparr>"])
       (simp_all add: armedGenerator_def max_absorb2)
  then show ?thesis
    by (simp add: onSizeInput_def generateQRDebounced_def armedGenerator_def)
qed

lemma armedGenerator_fires_once:
  assumes v: "validateUrl rt (urlInputValue g)" and T: "t + 500 \<le> T"
  shows "generated (advanceGenerator (Suc (Suc k)) rt T (armedGenerator g t w)) =
           generated g @ [(sanitizeUrl (urlInputValue g), (vanilla_options g)\<lparr>width := w\<rparr>)]
         \<and> debounceTimer (advanceGenerator (Suc (Suc k)) rt T (armedGenerator g t w)) = None"
proof -
  let ?a = "(armedGenerator g t w)\<lparr>debounceTimer := None, generatorClock := t + 500\<rparr>"
  have s1: "advanceGenerator (Suc (Suc k)) rt T (armedGenerator g t w) =
          advanceGenerator (Suc k) rt T (debounceCallback rt None ?a)"
    using T
    by (subst advanceGenerator_fire [where timer = "\<lparr>timer_due = t + 500, timer_url = None\<rparr>"])
       (simp_all add: armedGenerator_def max_absorb2)
  let ?b = "debounceCallback rt None ?a"
  have fb: "generated ?b =
              generated g @ [(sanitizeUrl (urlInputValue g), (vanilla_options g)\<lparr>width := w\<rparr>)]"
    "debounceTimer ?b = None"
    using v validateUrl_nonempty [OF v]
    by (simp_all add: debounceCallback_def generateQR_def truthy_def Let_def armedGenerator_def
          split: option.splits)
  have "advanceGenerator (Suc k) rt T ?b = ?b\<lparr>generatorClock := max (generatorClock ?b) T\<rparr>"
    by (rule advanceGenerator_idle) (rule fb(2))
  with s1 fb show ?thesis by simp
qed

lemma vanilla_burst_regenerates_once:
  assumes "debounceTimer g = None" "validateUrl rt (urlInputValue g)"
    and "generatorClock g \<le> t1" "t1 \<le> t2" "t2 \<le> t3" "t3 < t1 + 500" "t3 + 500 \<le> T"
  shows "generated
           (advanceGenerator (Suc (Suc k)) rt T
             (onSizeInput p3 (advanceGenerator (Suc k3) rt t3
               (onSizeInput p2 (advanceGenerator (Suc k2) rt t2
                 (onSizeInput p1 (advanceGenerator (Suc k1) rt t1 g)))))))
         = generated g @
             [(sanitizeUrl (urlInputValue g), (vanilla_options g)\<lparr>width := parsedWidth p3\<rparr>)]
       \<and> debounceTimer
           (advanceGenerator (Suc (Suc k)) rt T
             (onSizeInput p3 (advanceGenerator (Suc k3) rt t3
               (onSizeInput p2 (advanceGenerator (Suc k2) rt t2
                 (onSizeInput p1 (advanceGenerator (Suc k1) rt t1 g)))))))
         = None"
proof -
  have a: "onSizeInput p1 (advanceGenerator (Suc k1) rt t1 g) = armedGenerator g t1 (parsedWidth p1)"
    using assms(1,3) by (rule onSizeInput_first)
  have b: "onSizeInput p2 (advanceGenerator (Suc k2) rt t2 (armedGenerator g t1 (parsedWidth p1)))
             = armedGenerator g t2 (parsedWidth p2)"
    using assms(4-6) by (intro onSizeInput_next) simp_all
  have c: "onSizeInput p3 (advanceGenerator (Suc k3) rt t3 (armedGenerator g t2 (parsedWidth p2)))
             = armedGenerator g t3 (parsedWidth p3)"
    using assms(4-6) by (intro onSizeInput_next) simp_all
  show ?thesis
    unfolding a b c using armedGenerator_fires_once [OF assms(2,7)] by simp
qed


subsection \<open>\<^verbatim>\<open>QRGenerator.tsx\<close>: two timers\<close>

lemma runEffects_fields:
  assumes "validateUrl rt (url c)"
  shows "url (runEffects rt c) = url c"
    and "options (runEffects rt c) = options c"
    and "qrDataUrl (runEffects rt c) = qrDataUrl c"
    and "regenerated (runEffects rt c) = regenerated c"
    and "componentClock (runEffects rt c) = componentClock c"
    and "urlTimer (runEffects rt c) =
           Some \<lparr>effect_due = componentClock c + 500, effect_url = url c,
                 effect_options = options c\<rparr>"
    and "colorDebounceTimer (runEffects rt c) =
           (if qrDataUrl c \<noteq> []
            then Some \<lparr>effect_due = componentClock c + 300, effect_url = url c,
                       effect_options = options c\<rparr>
            else None)"
    and "displayQrUrl (runEffects rt c) =
           (if qrDataUrl c \<noteq> [] \<and> displayQrUrl c = [] then qrDataUrl c else displayQrUrl c)"
  using assms validateUrl_nonempty [OF assms]
  by (simp_all add: runEffects_def Let_def)

lemma generate_fields:
  assumes "validateUrl rt (url c)"
  shows "url (generateQRWithValidation rt (url c) opts c) = url c"
    and "options (generateQRWithValidation rt (url c) opts c) = options c"
    and "componentClock (generateQRWithValidation rt (url c) opts c) = componentClock c"
    and "regenerated (generateQRWithValidation rt (url c) opts c) =
           regenerated c @ [(sanitizeUrl (url c), opts)]"
  using assms validateUrl_nonempty [OF assms]
  by (simp_all add: generateQRWithValidation_def Let_def runEffects_def split: option.splits)

lemma generate_unchanged:
  assumes "validateUrl rt (url c)" "unchanged rt opts c"
  shows "generateQRWithValidation rt (url c) opts c =
           c\<lparr>regenerated := regenerated c @ [(sanitizeUrl (url c), opts)]\<rparr>"
  using assms validateUrl_nonempty [OF assms(1)]
  by (auto simp add: generateQRWithValidation_def Let_def unchanged_def split: option.splits)

lemma generate_changed:
  assumes "validateUrl rt (url c)"
    and "QRCode_toDataURL rt (sanitizeUrl (url c))
           (opts\<lparr>dark := ''#ffffff'', light := ''#00000000''\<rparr>) = Some q"
    and "\<not> (q = qrDataUrl c \<and> q = displayQrUrl c)"
  shows "qrDataUrl (generateQRWithValidation rt (url c) opts c) = q"
    and "displayQrUrl (generateQRWithValidation rt (url c) opts c) = q"
    and "urlTimer (generateQRWithValidation rt (url c) opts c) =
           Some \<lparr>effect_due = componentClock c + 500, effect_url = url c,
                 effect_options = options c\<rparr>"
    and "colorDebounceTimer (generateQRWithValidation rt (url c) opts c) =
           (if q \<noteq> []
            then Some \<lparr>effect_due = componentClock c + 300, effect_url = url c,
                       effect_options = options c\<rparr>
            else None)"
  using assms validateUrl_nonempty [OF assms(1)]
  by (auto simp add: generateQRWithValidation_def Let_def runEffects_def)


declare advanceComponent.simps [simp del]

lemma advance_idle:
  assumes "urlTimer c = None" "colorDebounceTimer c = None"
  shows "advanceComponent (Suc n) rt T c = c\<lparr>componentClock := max (componentClock c) T\<rparr>"
  using assms by (simp add: advanceComponent.simps Let_def)

lemma advance_wait:
  assumes "urlTimer c = Some t1" "colorDebounceTimer c = Some t2"
    and "T < effect_due t1" "T < effect_due t2"
  shows "advanceComponent (Suc n) rt T c = c\<lparr>componentClock := max (componentClock c) T\<rparr>"
  using assms by (simp add: advanceComponent.simps Let_def)

lemma advance_color_first:
  assumes "urlTimer c = Some t1" "colorDebounceTimer c = Some t2"
    and "effect_due t2 < effect_due t1" "effect_due t2 \<le> T"
  shows "advanceComponent (Suc n) rt T c =
           advanceComponent n rt T
             (generateQRWithValidation rt (effect_url t2) (effect_options t2)
                (c\<lparr>colorDebounceTimer := None,
                   componentClock := max (componentClock c) (effect_due t2)\<rparr>))"
  using assms by (simp add: advanceComponent.simps Let_def)

lemma advance_url_only:
  assumes "urlTimer c = Some t1" "colorDebounceTimer c = None" "effect_due t1 \<le> T"
  shows "advanceComponent (Suc n) rt T c =
           advanceComponent n rt T
             (generateQRWithValidation rt (effect_url t1) (effect_options t1)
                (c\<lparr>urlTimer := None,
                   componentClock := max (componentClock c) (effect_due t1)\<rparr>))"
  using assms by (simp add: advanceComponent.simps Let_def)

lemma onSizeChange_shown:
  assumes "validateUrl rt (url c)" "qrDataUrl c \<noteq> []" "displayQrUrl c \<noteq> []"
  shows "onSizeChange rt raw c =
           c\<lparr>options := (options c)\<lparr>width := parsedValue (validateNumericInput raw 128 1024 256)\<rparr>,
              urlTimer := Some \<lparr>effect_due = componentClock c + 500, effect_url = url c,
                 effect_options =
                   (options c)\<lparr>width := parsedValue (validateNumericInput raw 128 1024 256)\<rparr>\<rparr>,
              colorDebounceTimer := Some \<lparr>effect_due = componentClock c + 300, effect_url = url c,
                 effect_options =
                   (options c)\<lparr>width := parsedValue (validateNumericInput raw 128 1024 256)\<rparr>\<rparr>\<rparr>"
  using assms validateUrl_nonempty [OF assms(1)]
  by (simp add: onSizeChange_def runEffects_def Let_def)


lemma burst_first:
  assumes "urlTimer c = None" "colorDebounceTimer c = None"
    and "validateUrl rt (url c)" "qrDataUrl c \<noteq> []" "displayQrUrl c \<noteq> []"
    and "componentClock c \<le> t"
  shows "onSizeChange rt raw (advanceComponent (Suc k) rt t c) =
           armed c t ((options c)\<lparr>width := parsedValue (validateNumericInput raw 128 1024 256)\<rparr>)"
proof -
  have a: "advanceComponent (Suc k) rt t c = c\<lparr>componentClock := t\<rparr>"
    using assms(6) by (simp add: advance_idle [OF assms(1,2)] max_absorb2)
  show ?thesis
    unfolding a using assms(3-5)
    by (subst onSizeChange_shown) (simp_all add: armed_def)
qed

lemma burst_next:
  assumes "validateUrl rt (url c)" "qrDataUrl c \<noteq> []" "displayQrUrl c \<noteq> []"
    and "t0 \<le> t" "t < t0 + 300"
  shows "onSizeChange rt raw (advanceComponent (Suc k) rt t (armed c t0 opts)) =
           armed c t (opts\<lparr>width := parsedValue (validateNumericInput raw 128 1024 256)\<rparr>)"
proof -
  have a: "advanceComponent (Suc k) rt t (armed c t0 opts) = (armed c t0 opts)\<lparr>componentClock := t\<rparr>"
    using assms(4,5)
    by (subst advance_wait [where ?t1.0 = "\<lparr>effect_due = t0 + 500, effect_url = url c, effect_options = opts\<rparr>"
          and ?t2.0 = "\<lparr>effect_due = t0 + 300, effect_url = url c, effect_options = opts\<rparr>"])
       (simp_all add: armed_def max_absorb2)
  show ?thesis
    unfolding a using assms(1-3)
    by (subst onSizeChange_shown) (simp_all add: armed_def)
qed


lemma unchanged_cong:
  "url c' = url c \<Longrightarrow> qrDataUrl c' = qrDataUrl c \<Longrightarrow> displayQrUrl c' = displayQrUrl c \<Longrightarrow>
   unchanged rt opts c' = unchanged rt opts c"
  by (simp add: unchanged_def split: option.splits)

lemma unchanged_Some:
  "QRCode_toDataURL rt (sanitizeUrl (url c)) (opts\<lparr>dark := ''#ffffff'', light := ''#00000000''\<rparr>)
     = Some q \<Longrightarrow>
   unchanged rt opts c \<longleftrightarrow> q = qrDataUrl c \<and> q = displayQrUrl c"
  by (simp add: unchanged_def)

lemma burst_settles:
  fixes c :: Component and opts :: QROptions and rt :: Runtime and t T k :: nat
  assumes v: "validateUrl rt (url c)" and q0: "qrDataUrl c \<noteq> []" and d0: "displayQrUrl c \<noteq> []"
    and T: "t + 800 \<le> T"
  defines "e \<equiv> (sanitizeUrl (url c), opts)"
  defines "final \<equiv> advanceComponent (Suc (Suc (Suc (Suc k)))) rt T (armed c t opts)"
  shows "\<exists>n\<ge>2. regenerated final = regenerated c @ replicate n e
           \<and> urlTimer final = None \<and> colorDebounceTimer final = None"
proof -
  let ?mask = "opts\<lparr>dark := ''#ffffff'', light := ''#00000000''\<rparr>"
  let ?r = "QRCode_toDataURL rt (sanitizeUrl (url c)) ?mask"
  let ?tu = "\<lparr>effect_due = t + 500, effect_url = url c, effect_options = opts\<rparr>"
  let ?tc = "\<lparr>effect_due = t + 300, effect_url = url c, effect_options = opts\<rparr>"
  let ?a = "(armed c t opts)\<lparr>colorDebounceTimer := None, componentClock := t + 300\<rparr>"
  have stepA: "final = advanceComponent (Suc (Suc (Suc k))) rt T
                          (generateQRWithValidation rt (url c) opts ?a)"
    unfolding final_def using T
    by (subst advance_color_first [where ?t1.0 = ?tu and ?t2.0 = ?tc])
       (simp_all add: armed_def max_absorb2)
  have ua: "url ?a = url c" by (simp add: armed_def)
  have va: "validateUrl rt (url ?a)" using v by (simp add: ua)
  show ?thesis
  proof (cases "unchanged rt opts c")
    case True
    then have una: "unchanged rt opts ?a"
      by (subst unchanged_cong [of _ c]) (simp_all add: armed_def)
    let ?b = "?a\<lparr>regenerated := regenerated c @ [e]\<rparr>"
    have b: "generateQRWithValidation rt (url c) opts ?a = ?b"
      using generate_unchanged [OF va una] by (simp add: armed_def e_def)
    let ?b' = "?b\<lparr>urlTimer := None, componentClock := t + 500\<rparr>"
    have stepB: "final = advanceComponent (Suc (Suc k)) rt T
                            (generateQRWithValidation rt (url c) opts ?b')"
      unfolding stepA b using T
      by (subst advance_url_only [where ?t1.0 = ?tu]) (simp_all add: armed_def max_absorb2)
    have vb: "validateUrl rt (url ?b')" using v by (simp add: armed_def)
    have unb: "unchanged rt opts ?b'" using True
      by (subst unchanged_cong [of _ c]) (simp_all add: armed_def)
    let ?d = "?b'\<lparr>regenerated := regenerated c @ [e, e]\<rparr>"
    have d: "generateQRWithValidation rt (url c) opts ?b' = ?d"
      using generate_unchanged [OF vb unb] by (simp add: armed_def e_def)
    have "final = ?d\<lparr>componentClock := max (componentClock ?d) T\<rparr>"
      unfolding stepB d by (rule advance_idle) (simp_all add: armed_def)
    then have "regenerated final = regenerated c @ replicate 2 e
           \<and> urlTimer final = None \<and> colorDebounceTimer final = None"
      by (simp add: armed_def numeral_2_eq_2)
    then show ?thesis by (intro exI [of _ 2]) simp
  next
    case False
    then obtain q where r: "?r = Some q" and ch: "\<not> (q = qrDataUrl c \<and> q = displayQrUrl c)"
      by (auto simp: unchanged_def split: option.splits)
    let ?b = "generateQRWithValidation rt (url c) opts ?a"
    have ra: "QRCode_toDataURL rt (sanitizeUrl (url ?a)) ?mask = Some q" using r by (simp add: ua)
    have cha: "\<not> (q = qrDataUrl ?a \<and> q = displayQrUrl ?a)" using ch by (simp add: armed_def)
    note gf = generate_fields [OF va, of opts, unfolded ua]
    note gc = generate_changed [OF va ra cha, unfolded ua]
    have fb: "url ?b = url c" "options ?b = opts" "componentClock ?b = t + 300"
      "regenerated ?b = regenerated c @ [e]" "qrDataUrl ?b = q" "displayQrUrl ?b = q"
      "urlTimer ?b = Some \<lparr>effect_due = t + 800, effect_url = url c, effect_options = opts\<rparr>"
      "colorDebounceTimer ?b =
         (if q \<noteq> [] then Some \<lparr>effect_due = t + 600, effect_url = url c, effect_options = opts\<rparr>
          else None)"
      using gf gc by (simp_all add: armed_def e_def)
    show ?thesis
    proof (cases "q = []")
      case True
      let ?b' = "?b\<lparr>urlTimer := None, componentClock := t + 800\<rparr>"
      have stepB: "final = advanceComponent (Suc (Suc k)) rt T
                              (generateQRWithValidation rt (url c) opts ?b')"
        unfolding stepA using T fb True
        by (subst advance_url_only
              [where ?t1.0 = "\<lparr>effect_due = t + 800, effect_url = url c, effect_options = opts\<rparr>"])
           (simp_all add: max_absorb2)
      have vb: "validateUrl rt (url ?b')" using v fb by simp
      have unb: "unchanged rt opts ?b'"
        by (subst unchanged_Some [of _ _ _ q]) (simp_all add: r fb)
      have d: "generateQRWithValidation rt (url c) opts ?b' =
                 ?b'\<lparr>regenerated := regenerated c @ [e, e]\<rparr>"
        using generate_unchanged [OF vb unb] fb by (simp add: e_def)
      have "final = (?b'\<lparr>regenerated := regenerated c @ [e, e]\<rparr>)
                      \<lparr>componentClock :=
                         max (componentClock (?b'\<lparr>regenerated := regenerated c @ [e, e]\<rparr>)) T\<rparr>"
        unfolding stepB d by (rule advance_idle) (simp_all add: fb True)
      then have "regenerated final = regenerated c @ replicate 2 e
           \<and> urlTimer final = None \<and> colorDebounceTimer final = None"
        by (simp add: fb True numeral_2_eq_2)
      then show ?thesis by (intro exI [of _ 2]) simp
    next
      case False
      let ?b' = "?b\<lparr>colorDebounceTimer := None, componentClock := t + 600\<rparr>"
      have stepB: "final = advanceComponent (Suc (Suc k)) rt T
                              (generateQRWithValidation rt (url c) opts ?b')"
        unfolding stepA using T fb False
        by (subst advance_color_first
              [where ?t1.0 = "\<lparr>effect_due = t + 800, effect_url = url c, effect_options = opts\<rparr>"
                 and ?t2.0 = "\<lparr>effect_due = t + 600, effect_url = url c, effect_options = opts\<rparr>"])
           (simp_all add: max_absorb2)
      have vb: "validateUrl rt (url ?b')" using v fb by simp
      have unb: "unchanged rt opts ?b'"
        by (subst unchanged_Some [of _ _ _ q]) (simp_all add: r fb)
      let ?d = "?b'\<lparr>regenerated := regenerated c @ [e, e]\<rparr>"
      have d: "generateQRWithValidation rt (url c) opts ?b' = ?d"
        using generate_unchanged [OF vb unb] fb by (simp add: e_def)
      let ?d' = "?d\<lparr>urlTimer := None, componentClock := t + 800\<rparr>"
      have stepC: "final = advanceComponent (Suc k) rt T
                              (generateQRWithValidation rt (url c) opts ?d')"
        unfolding stepB d using T fb
        by (subst advance_url_only
              [where ?t1.0 = "\<lparr>effect_due = t + 800, effect_url = url c, effect_options = opts\<rparr>"])
           (simp_all add: max_absorb2)
      have vd: "validateUrl rt (url ?d')" using v fb by simp
      have und: "unchanged rt opts ?d'"
        by (subst unchanged_Some [of _ _ _ q]) (simp_all add: r fb)
      let ?f = "?d'\<lparr>regenerated := regenerated c @ [e, e, e]\<rparr>"
      have f: "generateQRWithValidation rt (url c) opts ?d' = ?f"
        using generate_unchanged [OF vd und] fb by (simp add: e_def)
      have "final = ?f\<lparr>componentClock := max (componentClock ?f) T\<rparr>"
        unfolding stepC f by (rule advance_idle) (simp_all add: fb)
      then have "regenerated final = regenerated c @ replicate 3 e
           \<and> urlTimer final = None \<and> colorDebounceTimer final = None"
        by (simp add: fb numeral_3_eq_3)
      then show ?thesis by (intro exI [of _ 3]) simp
    qed
  qed
qed


text \<open>
  C9. In the React component a size change renders the component, and the render re-arms
  both the 500 ms timer of the URL effect and the 300 ms timer of the second effect (each
  after clearing its own pending timer). So after three size changes within 300 ms on a
  settled component that shows a QR code for a valid URL, the encoder is called two or three
  times, not once: after 300 ms, and again when the timers that are still pending or were
  re-armed by the new image fire. Every one of these calls uses the final width. (In
  \<^verbatim>\<open>script.js\<close>, with its single timer, the same burst gives exactly one call, lemma
  \<open>vanilla_burst_regenerates_once\<close>.)
\<close>

theorem react_burst_regenerates_repeatedly:
  fixes c :: Component and rt :: Runtime and t1 t2 t3 T k k1 k2 k3 :: nat
    and raw1 raw2 raw3 :: string
  assumes "urlTimer c = None" "colorDebounceTimer c = None"
    and "validateUrl rt (url c)" "qrDataUrl c \<noteq> []" "displayQrUrl c \<noteq> []"
    and "componentClock c \<le> t1" "t1 \<le> t2" "t2 \<le> t3" "t3 < t1 + 300" "t3 + 800 \<le> T"
  defines "final \<equiv>
             advanceComponent (Suc (Suc (Suc (Suc k)))) rt T
               (onSizeChange rt raw3 (advanceComponent (Suc k3) rt t3
                 (onSizeChange rt raw2 (advanceComponent (Suc k2) rt t2
                   (onSizeChange rt raw1 (advanceComponent (Suc k1) rt t1 c))))))"
  shows "\<exists>n\<ge>2.
           regenerated final
           = regenerated c @
               replicate n
                 (sanitizeUrl (url c),
                  (options c)\<lparr>width := parsedValue (validateNumericInput raw3 128 1024 256)\<rparr>)
           \<and> urlTimer final = None \<and> colorDebounceTimer final = None"
proof -
  let ?w = "\<lambda>raw. parsedValue (validateNumericInput raw 128 1024 256)"
  have a: "onSizeChange rt raw1 (advanceComponent (Suc k1) rt t1 c) =
             armed c t1 ((options c)\<lparr>width := ?w raw1\<rparr>)"
    using assms(1-6) by (rule burst_first)
  have b: "onSizeChange rt raw2
             (advanceComponent (Suc k2) rt t2 (armed c t1 ((options c)\<lparr>width := ?w raw1\<rparr>))) =
             armed c t2 ((options c)\<lparr>width := ?w raw2\<rparr>)"
    using burst_next [OF assms(3-5), where ?t0.0 = t1 and t = t2 and raw = raw2 and k = k2
            and opts = "(options c)\<lparr>width := ?w raw1\<rparr>"]
      assms(7-9)
    by simp
  have d: "onSizeChange rt raw3
             (advanceComponent (Suc k3) rt t3 (armed c t2 ((options c)\<lparr>width := ?w raw2\<rparr>))) =
             armed c t3 ((options c)\<lparr>width := ?w raw3\<rparr>)"
    using burst_next [OF assms(3-5), where ?t0.0 = t2 and t = t3 and raw = raw3 and k = k3
            and opts = "(options c)\<lparr>width := ?w raw2\<rparr>"]
      assms(7-9)
    by simp
  from burst_settles [OF assms(3-5) assms(10), where opts = "(options c)\<lparr>width := ?w raw3\<rparr>"
         and k = k]
  show ?thesis unfolding final_def a b d by blast
qed

theorem react_burst_regenerates_repeatedly_witness:
  "urlTimer sampleComponent = None \<and> colorDebounceTimer sampleComponent = None
   \<and> validateUrl sampleRuntime (url sampleComponent)
   \<and> qrDataUrl sampleComponent \<noteq> [] \<and> displayQrUrl sampleComponent \<noteq> []
   \<and> (\<exists>n\<ge>2.
         regenerated
           (advanceComponent 4 sampleRuntime 1000
             (onSizeChange sampleRuntime ''400'' (advanceComponent 1 sampleRuntime 200
               (onSizeChange sampleRuntime ''300'' (advanceComponent 1 sampleRuntime 100
                 (onSizeChange sampleRuntime ''200''
                   (advanceComponent 1 sampleRuntime 0 sampleComponent)))))))
         = replicate n (''https://example.com'', sampleOptions\<lparr>width := 400\<rparr>))
   \<and> (0 :: nat) \<le> 100 \<and> (100 :: nat) \<le> 200 \<and> (200 :: nat) < 0 + 300
   \<and> (200 :: nat) + 800 \<le> 1000"
proof -
  have s: "urlTimer sampleComponent = None" "colorDebounceTimer sampleComponent = None"
    "qrDataUrl sampleComponent \<noteq> []" "displayQrUrl sampleComponent \<noteq> []"
    "componentClock sampleComponent \<le> 0" "url sampleComponent = ''example.com''"
    "options sampleComponent = sampleOptions" "regenerated sampleComponent = []"
    by (simp_all add: sampleComponent_def)
  have v: "validateUrl sampleRuntime (url sampleComponent)"
    by (simp add: s validateUrl_def sampleRuntime_def)
  have u: "sanitizeUrl ''example.com'' = ''https://example.com''"
    by (simp add: sanitizeUrl_def trim_def isWhiteSpace_def)
  have w: "parsedValue (validateNumericInput ''400'' 128 1024 256) = 400"
    by (simp add: validateNumericInput_def trim_def parseInt_def trimStart_def isWhiteSpace_def
          isRadixDigit_def digitVal_def roundToDouble_small)
  have n: "(4 :: nat) = Suc (Suc (Suc (Suc 0)))" "(1 :: nat) = Suc 0" by simp_all
  from react_burst_regenerates_repeatedly
         [OF s(1,2) v s(3,4) s(5), where ?t2.0 = 100 and ?t3.0 = 200 and T = 1000 and k = 0
            and ?raw3.0 = "''400''" and ?k3.0 = 0 and ?raw2.0 = "''300''" and ?k2.0 = 0
            and ?raw1.0 = "''200''" and ?k1.0 = 0]
  have "\<exists>n\<ge>2.
         regenerated
           (advanceComponent 4 sampleRuntime 1000
             (onSizeChange sampleRuntime ''400'' (advanceComponent 1 sampleRuntime 200
               (onSizeChange sampleRuntime ''300'' (advanceComponent 1 sampleRuntime 100
                 (onSizeChange sampleRuntime ''200''
                   (advanceComponent 1 sampleRuntime 0 sampleComponent)))))))
         = replicate n (''https://example.com'', sampleOptions\<lparr>width := 400\<rparr>)"
    unfolding n by (auto simp add: s u w)
  with s v show ?thesis by simp
qed

end
